theory Spec2Isabelle
  imports Main "HOL-Library.Word" "HOL-Library.Signed_Division"
begin

section \<open>Values travelling through the pipeline\<close>

text \<open>
  Go strings are byte sequences: \<open>string\<close> (a list of 8-bit \<open>char\<close>s) carries them.
  Go's \<open>int\<close> and \<open>int64\<close> are 64-bit words; lengths and counters that only count
  upwards from zero are \<open>nat\<close>.
\<close>

type_synonym int64 = "64 word"

text \<open>
  \<open>parser.Kind\<close>, \<open>parser.Date\<close> and \<open>parser.Time\<close> are declared in the library part of
  the repository; the command-line part uses exactly the constants and fields below.
  \<open>OtherKind\<close> stands for any value of the integer type \<open>Kind\<close> beside the nine
  named ones: both \<open>switch\<close> statements over a kind have a fall-through for it.
\<close>

datatype Kind = MyDate | MyIP | MyTime | MyTimestamp | MyURI | Float64 | Int64 | Bool | String
  | OtherKind

record Date =
  Year :: int64
  Month :: int64
  Day :: int64

record Time =
  Hour :: int64
  Minute :: int64
  Second :: int64
  Nanosecond :: int64

text \<open>\<open>pgtype.Status\<close>: the zero value is \<open>Undefined\<close>.\<close>

datatype Status = Undefined | Null | Present

text \<open>
  One type for everything an \<open>interface{}\<close> holds in this program: what \<open>line.Get\<close>
  hands over, and what \<open>pgConvert\<close> stores in a row.
  \<^item> \<open>GoNil\<close> is the untyped \<open>nil\<close> interface.
  \<^item> \<open>GoTime t\<close> is a \<open>time.Time\<close>, as the number of nanoseconds since the zero instant.
  \<^item> \<open>GoTimeDate y m d\<close> is the value of \<open>time.Date(y, m, d, 0, 0, 0, 0, time.UTC)\<close>.
  \<^item> \<open>MyMyTimePtr p\<close> is a \<open>*MyMyTime\<close>; \<open>MyMyTimePtr None\<close> is the nil pointer of that
    type, which is not the untyped \<open>nil\<close>.
  \<^item> \<open>PgInetSet ip\<close> is the \<open>pgtype.Inet\<close> left by \<open>Set\<close> on an address.
  \<^item> \<open>GoFloat64\<close> carries the 64 bits of the float, which nothing here interprets.
\<close>

datatype val =
    GoNil
  | GoString string
  | GoFloat64 int64
  | GoInt64 int64
  | GoBool bool
  | GoBytes string
  | ParserDate Date
  | ParserTime Time
  | GoTime int
  | GoTimeDate int64 int64 int64
  | NetIP string
  | PgDate \<open>Status\<close>
  | PgInet \<open>Status\<close>
  | PgInetSet string
  | MyMyTimePtr "Time option"
  | PgTimestamptz \<open>Status\<close> "int option"
  | PgFloat8 \<open>Status\<close>
  | PgInt8 \<open>Status\<close>
  | PgBool \<open>Status\<close>

text \<open>
  Errors are values. \<open>TooManyFields c\<close> is \<open>"too many fields (max c)"\<close>,
  \<open>WrongNumberOfFields i n k\<close> is
  \<open>"wrong number of fields (for line i, expected n, got k)"\<close>; \<open>Err s\<close> is an error
  made by a collaborator (file system, parser, driver, id generator).
\<close>

datatype error =
    Err string
  | TooManyFields nat
  | WrongNumberOfFields nat int nat

section \<open>Rows and the pooled batch\<close>

text \<open>
  \<open>type Row []interface{}\<close>: a slice has its elements and a capacity. \<open>AddField\<close> only
  appends below the capacity, so the backing array is never reallocated and the capacity
  of a row never changes.
\<close>

record Row =
  elems :: "val list"
  rcap :: nat

text \<open>\<open>AddField\<close> returns the row as the pointer leaves it, and the error.\<close>

definition AddField :: "Row \<Rightarrow> val \<Rightarrow> Row \<times> error option" where
  "AddField r field =
     (if length (elems r) < rcap r
      then (r\<lparr>elems := elems r @ [field]\<rparr>, None)
      else (r, Some (TooManyFields (rcap r))))"

text \<open>
  \<open>Rows\<close>: the batch. \<open>rows\<close> is a slice of pointers; a pointer to a row of the batch is
  its index in \<open>rows\<close>. \<open>pool\<close> is the \<open>sync.Pool\<close>: the rows put back, most recent
  first; \<open>Get\<close> takes one of them if there is one and calls \<open>New\<close> otherwise. (A
  \<open>sync.Pool\<close> may also forget what it holds; every row it can hand out has the same
  capacity and is cut to length zero before use.)
\<close>

record Rows =
  pool :: "Row list"
  maxSize :: int
  nbFields :: int
  rows :: "Row list"

text \<open>\<open>make\<close> panics on a negative capacity: \<open>None\<close> is the panic.\<close>

definition RowFactory :: "int \<Rightarrow> int \<Rightarrow> Rows option" where
  "RowFactory mx nb =
     (if mx < 0 then None
      else Some \<lparr>pool = [], maxSize = mx, nbFields = nb, rows = []\<rparr>)"

definition pool_New :: "Rows \<Rightarrow> Row option" where
  "pool_New r = (if nbFields r < 0 then None else Some \<lparr>elems = [], rcap = nat (nbFields r)\<rparr>)"

definition pool_Get :: "Rows \<Rightarrow> (Row \<times> Row list) option" where
  "pool_Get r =
     (case pool r of
        [] \<Rightarrow> (case pool_New r of None \<Rightarrow> None | Some row \<Rightarrow> Some (row, []))
      | row # rest \<Rightarrow> Some (row, rest))"

text \<open>
  \<open>GetRow\<close> returns the batch as it leaves it, the pointer to the new row (its index;
  \<open>None\<close> is the nil pointer) and the flag. The outer \<open>None\<close> is a panic inside \<open>New\<close>.
\<close>

definition GetRow :: "Rows \<Rightarrow> (Rows \<times> nat option \<times> bool) option" where
  "GetRow r =
     (if int (length (rows r)) < maxSize r
      then (case pool_Get r of
              None \<Rightarrow> None
            | Some (row, rest) \<Rightarrow>
                Some (r\<lparr>pool := rest, rows := rows r @ [row\<lparr>elems := []\<rparr>]\<rparr>,
                      Some (length (rows r)), False))
      else Some (r, None, True))"

text \<open>
  \<open>Source\<close>: the cursor. \<open>&Source{r: r}\<close> leaves \<open>idx\<close> at the zero value of \<open>int\<close>.
  The cursor points to the batch; the batch does not change while a cursor is read, so
  the cursor holds the rows it points to.
\<close>

record Source =
  src_rows :: "Row list"
  idx :: nat

fun first_bad :: "int \<Rightarrow> nat \<Rightarrow> Row list \<Rightarrow> error option" where
  "first_bad nb i [] = None"
| "first_bad nb i (row # rest) =
     (if int (length (elems row)) \<noteq> nb
      then Some (WrongNumberOfFields i nb (length (elems row)))
      else first_bad nb (Suc i) rest)"

definition GetSource :: "Rows \<Rightarrow> error + Source" where
  "GetSource r =
     (case first_bad (nbFields r) 0 (rows r) of
        Some e \<Rightarrow> Inl e
      | None \<Rightarrow> Inr \<lparr>src_rows = rows r, idx = 0\<rparr>)"

definition Clear :: "Rows \<Rightarrow> Rows" where
  "Clear r = r\<lparr>pool := rev (rows r) @ pool r, rows := []\<rparr>"

definition Len :: "Rows \<Rightarrow> nat" where
  "Len r = length (rows r)"

definition Next :: "Source \<Rightarrow> bool \<times> Source" where
  "Next s = (Suc (idx s) < length (src_rows s), s\<lparr>idx := Suc (idx s)\<rparr>)"

text \<open>\<open>Values\<close> indexes the batch: out of range it panics (\<open>None\<close>).\<close>

definition Values :: "Source \<Rightarrow> val list option" where
  "Values s = (if idx s < length (src_rows s) then Some (elems (src_rows s ! idx s)) else None)"


section \<open>Collaborators\<close>

text \<open>
  A parsed line: \<open>line.Get(name)\<close>.
\<close>

type_synonym Line = "string \<Rightarrow> val"

text \<open>
  What the collaborators answer while one file is uploaded.
  \<^item> The parser over the opened file: the result of \<open>ParseHeader\<close>, \<open>FieldNames\<close>,
    \<open>HasGmtTime\<close>, the lines that \<open>NextTo\<close> (or \<open>Next\<close>) returns one after the other, and
    with \<open>NextErr\<close> what it returns after them: \<open>None\<close> is \<open>(nil, nil)\<close> at the end of the
    file, \<open>Some e\<close> an error.
  \<^item> The connection pool and the connection: the result of \<open>Acquire\<close>, the error of the
    \<open>k\<close>-th \<open>CopyFrom\<close> call (counted from 0) and of \<open>Exec("VACUUM;")\<close>.
  \<^item> \<open>NewV1 k\<close>: the \<open>k\<close>-th call of \<open>uuid.NewV1\<close>, the bytes of the identifier or an error.
  \<^item> \<open>Flush k\<close>: the \<open>k\<close>-th call of the bulk processor's \<open>Flush\<close> for this file.
\<close>

record FileEnv =
  ParseHeader :: "error option"
  FieldNames :: "string list"
  HasGmtTime :: bool
  Lines :: "Line list"
  NextErr :: "error option"
  Acquire :: "error option"
  CopyFromErr :: "nat \<Rightarrow> error option"
  ExecVacuum :: "error option"
  NewV1 :: "nat \<Rightarrow> error + string"
  Flush :: "nat \<Rightarrow> error option"

text \<open>
  What does not depend on the file: \<open>parser.GuessType\<close> and the \<open>IsZero\<close> methods of
  \<open>parser.Date\<close> and \<open>parser.Time\<close> (library part of the repository), \<open>pgKey\<close> and the
  variable \<open>tableName\<close> (another file of the command-line part), \<open>strings.TrimSpace\<close>,
  \<open>strings.ToLower\<close>, the ISO 8859-15 decoder's \<open>String\<close>, \<open>unidecode.Unidecode\<close>,
  \<open>os.Open\<close> followed by \<open>parser.NewFileParser\<close>, and the set-up calls of the two drivers.
\<close>

record Env =
  GuessType :: "string \<Rightarrow> Kind"
  Date_IsZero :: "Date \<Rightarrow> bool"
  Time_IsZero :: "Time \<Rightarrow> bool"
  pgKey :: "string \<Rightarrow> string"
  tableName :: string
  TrimSpace :: "string \<Rightarrow> string"
  ToLower :: "string \<Rightarrow> string"
  isoDecoder_String :: "string \<Rightarrow> error + string"
  Unidecode :: "string \<Rightarrow> string"
  os_Open :: "string \<Rightarrow> error + FileEnv"
  ParseConnectionString :: "string \<Rightarrow> error option"
  NewConnPool :: "error option"
  NewClient :: "error option"
  ElasticsearchVersion :: "error option"
  BulkProcessor_Do :: "error option"

section \<open>Value conversion\<close>

text \<open>
  \<open>utf8.ValidString\<close> of the Go standard library: \<open>first\<close> gives, for a leading byte,
  the length of the sequence and the range accepted for its second byte (\<open>None\<close> for a
  byte that cannot start a sequence), the other bytes are continuation bytes.
\<close>

definition byte :: "char \<Rightarrow> nat" where
  "byte c = of_char c"

definition first :: "nat \<Rightarrow> (nat \<times> nat \<times> nat) option" where
  "first b =
     (if 0xC2 \<le> b \<and> b \<le> 0xDF then Some (2, 0x80, 0xBF)
      else if b = 0xE0 then Some (3, 0xA0, 0xBF)
      else if 0xE1 \<le> b \<and> b \<le> 0xEC then Some (3, 0x80, 0xBF)
      else if b = 0xED then Some (3, 0x80, 0x9F)
      else if 0xEE \<le> b \<and> b \<le> 0xEF then Some (3, 0x80, 0xBF)
      else if b = 0xF0 then Some (4, 0x90, 0xBF)
      else if 0xF1 \<le> b \<and> b \<le> 0xF3 then Some (4, 0x80, 0xBF)
      else if b = 0xF4 then Some (4, 0x80, 0x8F)
      else None)"

definition continuation :: "char \<Rightarrow> bool" where
  "continuation c = (0x80 \<le> byte c \<and> byte c \<le> 0xBF)"

fun ValidString :: "string \<Rightarrow> bool" where
  "ValidString [] = True"
| "ValidString (c # cs) =
     (if byte c < 0x80 then ValidString cs
      else (case first (byte c) of
              None \<Rightarrow> False
            | Some (n, lo, hi) \<Rightarrow>
                (if length cs < n - 1 then False
                 else if byte (hd cs) < lo \<or> hi < byte (hd cs) then False
                 else if \<not> list_all continuation (take (n - 2) (tl cs)) then False
                 else ValidString (drop (n - 1) cs))))"

definition decodeCharset :: "Env \<Rightarrow> string \<Rightarrow> string" where
  "decodeCharset E s =
     (if ValidString s then s
      else (case isoDecoder_String E s of
              Inr utf \<Rightarrow> utf
            | Inl err \<Rightarrow> Unidecode E s))"

fun pgDefaultVal :: "Kind \<Rightarrow> val" where
  "pgDefaultVal MyDate = PgDate Null"
| "pgDefaultVal MyIP = PgInet Null"
| "pgDefaultVal MyTime = MyMyTimePtr None"
| "pgDefaultVal MyTimestamp = PgTimestamptz Null None"
| "pgDefaultVal MyURI = GoString []"
| "pgDefaultVal Float64 = PgFloat8 Null"
| "pgDefaultVal Int64 = PgInt8 Null"
| "pgDefaultVal Bool = PgBool Null"
| "pgDefaultVal String = GoString []"
| "pgDefaultVal OtherKind = GoString []"

text \<open>A type assertion on a value of another dynamic type panics: \<open>None\<close>.\<close>

definition assert_string :: "Env \<Rightarrow> val \<Rightarrow> val option" where
  "assert_string E v = (case v of GoString s \<Rightarrow> Some (GoString (decodeCharset E s)) | _ \<Rightarrow> None)"

definition pgConvert :: "Env \<Rightarrow> Kind \<Rightarrow> val \<Rightarrow> val option" where
  "pgConvert E t v =
     (if v = GoNil then Some (pgDefaultVal t)
      else (case t of
          MyDate \<Rightarrow>
            (case v of
               ParserDate d \<Rightarrow>
                 if Date_IsZero E d then Some (pgDefaultVal t)
                 else Some (GoTimeDate (Year d) (Month d) (Day d))
             | _ \<Rightarrow> None)
        | MyIP \<Rightarrow> (case v of NetIP ip \<Rightarrow> Some (PgInetSet ip) | _ \<Rightarrow> None)
        | MyTime \<Rightarrow>
            (case v of
               ParserTime tm \<Rightarrow>
                 if Time_IsZero E tm then Some (pgDefaultVal t)
                 else Some (MyMyTimePtr (Some tm))
             | _ \<Rightarrow> None)
        | MyTimestamp \<Rightarrow>
            (case v of
               GoTime ns \<Rightarrow>
                 if ns = 0 then Some (pgDefaultVal t)
                 else Some (PgTimestamptz Present (Some ns))
             | _ \<Rightarrow> None)
        | MyURI \<Rightarrow> assert_string E v
        | Float64 \<Rightarrow> (case v of GoFloat64 x \<Rightarrow> Some (GoFloat64 x) | _ \<Rightarrow> None)
        | Int64 \<Rightarrow> (case v of GoInt64 x \<Rightarrow> Some (GoInt64 x) | _ \<Rightarrow> None)
        | Bool \<Rightarrow> (case v of GoBool x \<Rightarrow> Some (GoBool x) | _ \<Rightarrow> None)
        | String \<Rightarrow> assert_string E v
        | OtherKind \<Rightarrow> assert_string E v))"

subsection \<open>Binary encoding of a time of day\<close>

definition usecsPerHour :: int64 where "usecsPerHour = 3600000000"
definition usecsPerMinute :: int64 where "usecsPerMinute = 60000000"
definition usecsPerSec :: int64 where "usecsPerSec = 1000000"
definition nanosecsPerUsec :: int64 where "nanosecsPerUsec = 1000"

text \<open>Go's \<open>/\<close> on \<open>int64\<close> truncates towards zero.\<close>

definition quo64 :: "int64 \<Rightarrow> int64 \<Rightarrow> int64" where
  "quo64 a b = word_of_int (sint a sdiv sint b)"

text \<open>\<open>pgio.AppendInt64\<close>: the eight bytes of the integer, most significant first.\<close>

definition AppendInt64 :: "8 word list \<Rightarrow> int64 \<Rightarrow> 8 word list" where
  "AppendInt64 buf n = buf @ map (\<lambda>k. ucast (drop_bit (8 * k) n)) [7, 6, 5, 4, 3, 2, 1, 0]"

definition EncodeBinary :: "Time option \<Rightarrow> 8 word list \<Rightarrow> 8 word list option \<times> error option" where
  "EncodeBinary src buf =
     (case src of
        None \<Rightarrow> (None, None)
      | Some t \<Rightarrow>
          (Some (AppendInt64 buf
             (Hour t * usecsPerHour + Minute t * usecsPerMinute + Second t * usecsPerSec
                + quo64 (Nanosecond t) nanosecsPerUsec)),
           None))"


section \<open>Uploading one file to the relational sink\<close>

text \<open>
  One \<open>conn.CopyFrom\<close> call: the columns, the rows the driver reads from the cursor, and
  the error it returns.
\<close>

record CopyCall =
  table :: string
  columns :: "string list"
  streamed :: "val list list"
  copy_err :: "error option"

text \<open>
  The driver reads a \<open>CopyFromSource\<close> as its interface says: \<open>Next\<close> tells whether there
  is another row and makes it available to \<open>Values\<close>; the driver calls \<open>Next\<close>, then
  \<open>Values\<close> while \<open>Next\<close> is true. \<open>None\<close> is a panic inside \<open>Values\<close>.
\<close>

function drain :: "Source \<Rightarrow> val list list option" where
  "drain s =
     (if fst (Next s)
      then (case Values (snd (Next s)) of
              None \<Rightarrow> None
            | Some v \<Rightarrow> (case drain (snd (Next s)) of None \<Rightarrow> None | Some vs \<Rightarrow> Some (v # vs)))
      else Some [])"
  by pat_completeness auto
termination
  by (relation "measure (\<lambda>s. length (src_rows s) - idx s)") (auto simp: Next_def)

declare drain.simps [simp del]

text \<open>
  The state of \<open>uploadPG\<close> inside its loop: the batch, \<open>nbLines\<close>, the bulk-copy calls
  made so far and the number of identifiers asked for so far.
\<close>

record Upload =
  factory :: Rows
  nbLines :: nat
  copies :: "CopyCall list"
  ids :: nat

datatype flushed = FlushPanic | FlushErr error | FlushOk

text \<open>The closure \<open>uploadRows\<close>.\<close>

definition uploadRows :: "Env \<Rightarrow> FileEnv \<Rightarrow> string list \<Rightarrow> Upload \<Rightarrow> Upload \<times> flushed" where
  "uploadRows E F columnNames u =
     (if Len (factory u) = 0 then (u, FlushOk)
      else (case GetSource (factory u) of
              Inl err \<Rightarrow> (u, FlushErr err)
            | Inr s \<Rightarrow>
                (case drain s of
                   None \<Rightarrow> (u, FlushPanic)
                 | Some vs \<Rightarrow>
                     (let err = CopyFromErr F (length (copies u));
                          u1 = u\<lparr>copies := copies u @
                                 [\<lparr>table = tableName E, columns = columnNames,
                                   streamed = vs, copy_err = err\<rparr>]\<rparr>
                      in (case err of
                            Some e \<Rightarrow> (u1, FlushErr e)
                          | None \<Rightarrow> (u1\<lparr>factory := Clear (factory u1)\<rparr>, FlushOk))))))"

text \<open>
  How a step of \<open>uploadPG\<close> ends: it goes on, it panics, or the function returns a line
  count and an error.
\<close>

datatype ctl = Continue | Panicked | Returned nat "error option"

text \<open>
  \<open>row.AddField(v)\<close> through the pointer \<open>row\<close>: the nil pointer is dereferenced
  (\<open>None\<close>: panic); otherwise the row of the batch it points to is updated.
\<close>

definition ptr_AddField :: "Upload \<Rightarrow> nat option \<Rightarrow> val \<Rightarrow> (Upload \<times> error option) option" where
  "ptr_AddField u row v =
     (case row of
        None \<Rightarrow> None
      | Some i \<Rightarrow>
          (if i < length (rows (factory u))
           then (case AddField (rows (factory u) ! i) v of
                   (r', err) \<Rightarrow>
                     Some (u\<lparr>factory := (factory u)\<lparr>rows := (rows (factory u))[i := r']\<rparr>\<rparr>, err))
           else None))"

definition add_or_return :: "Upload \<Rightarrow> nat option \<Rightarrow> val \<Rightarrow> Upload \<times> ctl" where
  "add_or_return u row v =
     (case ptr_AddField u row v of
        None \<Rightarrow> (u, Panicked)
      | Some (u', Some err) \<Rightarrow> (u', Returned 0 (Some err))
      | Some (u', None) \<Rightarrow> (u', Continue))"

text \<open>The inner loop over \<open>curFieldNames\<close>; \<open>types[name]\<close> is \<open>parser.GuessType(name)\<close>.\<close>

fun fill_row :: "Env \<Rightarrow> FileEnv \<Rightarrow> Line \<Rightarrow> nat option \<Rightarrow> string list \<Rightarrow> Upload \<Rightarrow> Upload \<times> ctl" where
  "fill_row E F line row [] u = (u, Continue)"
| "fill_row E F line row (name # names) u =
     (if name = ''id''
      then (case NewV1 F (ids u) of
              Inl err \<Rightarrow> (u\<lparr>ids := Suc (ids u)\<rparr>, Returned 0 (Some err))
            | Inr uuid \<Rightarrow>
                (case add_or_return (u\<lparr>ids := Suc (ids u)\<rparr>) row (GoBytes uuid) of
                   (u', Continue) \<Rightarrow> fill_row E F line row names u'
                 | (u', c) \<Rightarrow> (u', c)))
      else (case pgConvert E (GuessType E name) (line name) of
              None \<Rightarrow> (u, Panicked)
            | Some v \<Rightarrow>
                (case add_or_return u row v of
                   (u', Continue) \<Rightarrow> fill_row E F line row names u'
                 | (u', c) \<Rightarrow> (u', c))))"

text \<open>
  The head of the loop body: \<open>GetRow\<close>, and when the batch is full, \<open>uploadRows\<close> and
  \<open>GetRow\<close> again (its flag is dropped).
\<close>

definition next_row :: "Env \<Rightarrow> FileEnv \<Rightarrow> string list \<Rightarrow> Upload \<Rightarrow> (Upload \<times> nat option) \<times> ctl" where
  "next_row E F columnNames u =
     (case GetRow (factory u) of
        None \<Rightarrow> ((u, None), Panicked)
      | Some (f1, row, full) \<Rightarrow>
          (if full
           then (case uploadRows E F columnNames (u\<lparr>factory := f1\<rparr>) of
                   (u1, FlushPanic) \<Rightarrow> ((u1, None), Panicked)
                 | (u1, FlushErr err) \<Rightarrow> ((u1, None), Returned 0 (Some err))
                 | (u1, FlushOk) \<Rightarrow>
                     (case GetRow (factory u1) of
                        None \<Rightarrow> ((u1, None), Panicked)
                      | Some (f2, row2, full2) \<Rightarrow> ((u1\<lparr>factory := f2\<rparr>, row2), Continue)))
           else ((u\<lparr>factory := f1\<rparr>, row), Continue)))"

text \<open>
  The loop over the lines. It ends when \<open>NextTo\<close> returns no line or an error; the
  error is then overwritten by the result of the last \<open>uploadRows\<close>.
\<close>

fun upload_lines :: "Env \<Rightarrow> FileEnv \<Rightarrow> string list \<Rightarrow> string list \<Rightarrow> Line list \<Rightarrow> Upload \<Rightarrow> Upload \<times> ctl" where
  "upload_lines E F cur cols [] u = (u, Continue)"
| "upload_lines E F cur cols (line # rest) u =
     (case next_row E F cols u of
        ((u1, row), Continue) \<Rightarrow>
          (case fill_row E F line row cur (u1\<lparr>nbLines := Suc (nbLines u1)\<rparr>) of
             (u2, Continue) \<Rightarrow> upload_lines E F cur cols rest u2
           | (u2, c) \<Rightarrow> (u2, c))
      | ((u1, row), c) \<Rightarrow> (u1, c))"

datatype msg =
    ErrorOpening string error
  | Uploading string
  | SuccessfullyUploaded string nat
  | ErrorUploading string error
  | ErrorBuildingParser error

text \<open>
  What one call of \<open>uploadPG\<close> does: what it prints to the error stream, the bulk-copy
  calls it makes, whether it runs \<open>VACUUM\<close>, whether the deferred \<open>Release\<close> runs, and
  how it ends (\<open>Panicked\<close> or \<open>Returned nbLines err\<close>).
\<close>

record PGRun =
  printed :: "msg list"
  bulk :: "CopyCall list"
  vacuumed :: bool
  released :: bool
  ending :: ctl

definition curFieldNames :: "FileEnv \<Rightarrow> string list" where
  "curFieldNames F =
     ''id'' # (if \<not> HasGmtTime F then ''gmttime'' # FieldNames F else FieldNames F)"

definition uploadPG :: "Env \<Rightarrow> FileEnv \<Rightarrow> int \<Rightarrow> PGRun" where
  "uploadPG E F bsize =
     (case ParseHeader F of
        Some err \<Rightarrow>
          \<lparr>printed = [ErrorBuildingParser err], bulk = [], vacuumed = False, released = False,
           ending = Returned 0 (Some err)\<rparr>
      | None \<Rightarrow>
          (let cur = curFieldNames F;
               columnNames = map (pgKey E) cur
           in (case Acquire F of
                 Some err \<Rightarrow>
                   \<lparr>printed = [], bulk = [], vacuumed = False, released = False,
                    ending = Returned 0 (Some err)\<rparr>
               | None \<Rightarrow>
                   (case RowFactory bsize (int (length cur)) of
                      None \<Rightarrow>
                        \<lparr>printed = [], bulk = [], vacuumed = False, released = True,
                         ending = Panicked\<rparr>
                    | Some fac \<Rightarrow>
                        (case upload_lines E F cur columnNames (Lines F)
                                \<lparr>factory = fac, nbLines = 0, copies = [], ids = 0\<rparr> of
                           (u, Continue) \<Rightarrow>
                             (case uploadRows E F columnNames u of
                                (u', FlushPanic) \<Rightarrow>
                                  \<lparr>printed = [], bulk = copies u', vacuumed = False,
                                   released = True, ending = Panicked\<rparr>
                              | (u', FlushErr err) \<Rightarrow>
                                  \<lparr>printed = [], bulk = copies u', vacuumed = False,
                                   released = True, ending = Returned 0 (Some err)\<rparr>
                              | (u', FlushOk) \<Rightarrow>
                                  \<lparr>printed = [], bulk = copies u', vacuumed = True,
                                   released = True,
                                   ending = Returned (nbLines u') (ExecVacuum F)\<rparr>)
                         | (u, c) \<Rightarrow>
                             \<lparr>printed = [], bulk = copies u, vacuumed = False,
                              released = True, ending = c\<rparr>)))))"


section \<open>The process: files, the error stream, termination\<close>









text \<open>The flags of \<open>push2pg\<close>; \<open>parallel\<close> is a \<open>uint8\<close>.\<close>

record PgFlags =
  filenames :: "string list"
  dbURI :: string
  parallel :: "8 word"
  batchsize :: int


section \<open>The index sink\<close>

subsection \<open>Mapping\<close>

text \<open>
  The field descriptors, one constructor for each struct, the arguments in the order of
  the struct's fields: \<open>Typ\<close>, then \<open>Store\<close> (for the date-like ones \<open>Format\<close>, \<open>Store\<close>);
  \<open>strMultiEsField\<close> has \<open>Typ\<close>, \<open>Store\<close>, the \<open>Typ\<close> of \<open>Fields.Raw\<close>, \<open>Copy\<close>;
  \<open>strEsField\<close> has \<open>Typ\<close>, \<open>Store\<close>, \<open>Copy\<close>.
\<close>

datatype anyEsField =
    doubleEsField string bool
  | boolEsField string bool
  | ipEsField string bool
  | strMultiEsField string bool string string
  | strEsField string bool string
  | dateEsField string string bool
  | timeEsField string string bool
  | datetimeEsField string string bool
  | longEsField string bool

type_synonym esFields = "string \<rightharpoonup> anyEsField"

definition newDoubleField :: anyEsField where
  "newDoubleField = doubleEsField ''double'' True"

definition newBoolField :: anyEsField where
  "newBoolField = boolEsField ''boolean'' True"

definition newIPField :: anyEsField where
  "newIPField = ipEsField ''ip'' True"

definition newMulti :: anyEsField where
  "newMulti = strMultiEsField ''text'' True ''keyword'' ''fulltext''"

definition newKeyword :: "bool \<Rightarrow> anyEsField" where
  "newKeyword copyfull = strEsField ''keyword'' True (if copyfull then ''fulltext'' else [])"

definition newTextField :: "bool \<Rightarrow> anyEsField" where
  "newTextField copyfull = strEsField ''text'' True (if copyfull then ''fulltext'' else [])"

definition newDateField :: anyEsField where
  "newDateField = dateEsField ''date'' ''strict_date'' True"

definition newTimeField :: anyEsField where
  "newTimeField = timeEsField ''date''
     ''strict_time_no_millis||strict_time||strict_hour_minute_second||strict_hour_minute_second_fraction''
     True"

definition newDatetimeField :: anyEsField where
  "newDatetimeField = datetimeEsField ''date'' ''strict_date_time_no_millis||strict_date_time'' True"

definition newLongField :: anyEsField where
  "newLongField = longEsField ''long'' True"

text \<open>\<open>excludes[k]\<close> on a \<open>map[string]bool\<close>: \<open>false\<close> for a key that is not there.\<close>

definition excluded :: "(string \<rightharpoonup> bool) \<Rightarrow> string \<Rightarrow> bool" where
  "excluded excludes k = (case excludes k of None \<Rightarrow> False | Some b \<Rightarrow> b)"

definition guessed_field :: "Kind \<Rightarrow> anyEsField" where
  "guessed_field k =
     (case k of
        MyDate \<Rightarrow> newDateField
      | MyIP \<Rightarrow> newIPField
      | MyTime \<Rightarrow> newTimeField
      | MyTimestamp \<Rightarrow> newDatetimeField
      | MyURI \<Rightarrow> newKeyword False
      | Float64 \<Rightarrow> newDoubleField
      | Int64 \<Rightarrow> newLongField
      | Bool \<Rightarrow> newBoolField
      | String \<Rightarrow> newKeyword True
      | OtherKind \<Rightarrow> newKeyword True)"

text \<open>The loop \<open>FLoop\<close> of \<open>newMessageFields\<close>.\<close>

fun FLoop :: "Env \<Rightarrow> (string \<rightharpoonup> bool) \<Rightarrow> string list \<Rightarrow> esFields \<Rightarrow> esFields" where
  "FLoop E excludes [] flds = flds"
| "FLoop E excludes (name # rest) flds =
     (if excluded excludes (ToLower E name) then FLoop E excludes rest flds
      else if name = ''cs(user-agent)'' then FLoop E excludes rest (flds(name \<mapsto> newTextField True))
      else if name = ''cs-host'' then FLoop E excludes rest (flds(name \<mapsto> newMulti))
      else if name = ''cs-uri-path'' then FLoop E excludes rest (flds(name \<mapsto> newMulti))
      else if name = ''cs-uri-query'' then FLoop E excludes rest (flds(name \<mapsto> newMulti))
      else FLoop E excludes rest (flds(name \<mapsto> guessed_field (GuessType E name))))"

definition newMessageFields :: "Env \<Rightarrow> string list \<Rightarrow> (string \<rightharpoonup> bool) \<Rightarrow> esFields" where
  "newMessageFields E fieldNames excludes =
     (FLoop E excludes fieldNames Map.empty)
       (''@timestamp'' \<mapsto> newDatetimeField, ''fulltext'' \<mapsto> strEsField ''text'' False [])"

subsection \<open>Pushing files\<close>




section \<open>Well-formed batches\<close>

text \<open>
  What \<open>RowFactory\<close> establishes and every operation keeps: the batch holds at most
  \<open>maxSize\<close> rows, and every row of the batch and of the pool has capacity \<open>nbFields\<close>.
\<close>

definition wf_Row :: "int \<Rightarrow> Row \<Rightarrow> bool" where
  "wf_Row nb row = (rcap row = nat nb \<and> length (elems row) \<le> rcap row)"

definition wf_Rows :: "Rows \<Rightarrow> bool" where
  "wf_Rows r =
     (0 \<le> nbFields r \<and> int (length (rows r)) \<le> maxSize r
      \<and> list_all (wf_Row (nbFields r)) (pool r) \<and> list_all (wf_Row (nbFields r)) (rows r))"

section \<open>A small environment\<close>

text \<open>
  An environment to run the definitions on: \<open>sc-status\<close> is guessed to be an integer
  and every other name a string, a date or a time is zero when all its fields are, the
  library functions on strings leave their argument as it is, and no file can be opened.
\<close>

definition env0 :: Env where
  "env0 = \<lparr>GuessType = (\<lambda>n. if n = ''sc-status'' then Int64 else String),
     Date_IsZero = (\<lambda>d. Year d = 0 \<and> Month d = 0 \<and> Day d = 0),
     Time_IsZero = (\<lambda>t. Hour t = 0 \<and> Minute t = 0 \<and> Second t = 0 \<and> Nanosecond t = 0),
     pgKey = id, tableName = ''accesslogs'', TrimSpace = id, ToLower = id,
     isoDecoder_String = Inr, Unidecode = id, os_Open = (\<lambda>n. Inl (Err ''no such file'')),
     ParseConnectionString = (\<lambda>u. None), NewConnPool = None, NewClient = None,
     ElasticsearchVersion = None, BulkProcessor_Do = None\<rparr>"

text \<open>The field \<open>Copy\<close> (\<open>copy_to\<close>) of a descriptor; the empty string where there is none.\<close>

fun Copy :: "anyEsField \<Rightarrow> string" where
  "Copy (strMultiEsField typ store raw copy) = copy"
| "Copy (strEsField typ store copy) = copy"
| "Copy f = []"

section \<open>Statements about a run\<close>




text \<open>
  Files to run the definitions on: \<open>file3\<close> has the field \<open>sc-status\<close> and three lines,
  and every collaborator succeeds; for \<open>file3_failing\<close> the second bulk copy and every
  \<open>Flush\<close> fail. \<open>env1\<close> is \<open>env0\<close> with four file names: \<open>a.log\<close> is \<open>file3_failing\<close>,
  \<open>b.log\<close> is \<open>file3\<close>, the header of \<open>bad.log\<close> cannot be parsed, and any other name
  cannot be opened.
\<close>

definition line_of :: "int64 \<Rightarrow> Line" where
  "line_of k = (\<lambda>name. if name = ''sc-status'' then GoInt64 k else GoNil)"

definition file3 :: FileEnv where
  "file3 = \<lparr>ParseHeader = None, FieldNames = [''sc-status''], HasGmtTime = True,
     Lines = [line_of 200, line_of 404, line_of 500], NextErr = None, Acquire = None,
     CopyFromErr = (\<lambda>k. None), ExecVacuum = None,
     NewV1 = (\<lambda>k. Inr (replicate (Suc k) CHR ''u'')), Flush = (\<lambda>k. None)\<rparr>"

definition file3_failing :: FileEnv where
  "file3_failing = file3\<lparr>CopyFromErr := (\<lambda>k. if k = 1 then Some (Err ''copy failed'') else None),
                          Flush := (\<lambda>k. Some (Err ''flush failed''))\<rparr>"

definition env1 :: Env where
  "env1 = env0\<lparr>os_Open :=
     (\<lambda>n. if n = ''a.log'' then Inr file3_failing
          else if n = ''b.log'' then Inr file3
          else if n = ''bad.log'' then Inr (file3\<lparr>ParseHeader := Some (Err ''bad header'')\<rparr>)
          else Inl (Err ''no such file''))\<rparr>"

definition flags1 :: PgFlags where
  "flags1 = \<lparr>filenames = [''missing.log'', ''bad.log'', ''a.log'', ''b.log''],
              dbURI = ''postgres://db'', parallel = 0, batchsize = 2\<rparr>"

section \<open>Statements about the flush cadence\<close>

text \<open>
  The sizes of the batches that the loop of \<open>uploadPG\<close> flushes, for a batch size \<open>B\<close>,
  \<open>p\<close> rows in the batch and \<open>L\<close> lines still to come (\<open>loop_flushes\<close>), and the number
  of rows left in the batch for the last flush (\<open>pending\<close>).
\<close>

fun loop_flushes :: "nat \<Rightarrow> nat \<Rightarrow> nat \<Rightarrow> nat list" where
  "loop_flushes B p 0 = []"
| "loop_flushes B p (Suc L) = (if p < B then loop_flushes B (Suc p) L else p # loop_flushes B 1 L)"

fun pending :: "nat \<Rightarrow> nat \<Rightarrow> nat \<Rightarrow> nat" where
  "pending B p 0 = p"
| "pending B p (Suc L) = (if p < B then pending B (Suc p) L else pending B 1 L)"

text \<open>
  \<open>clean E F\<close>: no collaborator fails while the file is uploaded, and every value of
  every line has the type that its column's kind asks for. \<open>batch_inv B n p u\<close>: the
  batch of \<open>u\<close> is one for \<open>B\<close> rows of \<open>n\<close> fields and holds \<open>p\<close> complete rows.
  \<open>same_run\<close>: two states differ in the rows of the batch and the identifier count only.
  \<open>sizes\<close>: the number of rows streamed by each bulk-copy call so far.
\<close>

definition clean :: "Env \<Rightarrow> FileEnv \<Rightarrow> bool" where
  "clean E F =
     (ParseHeader F = None \<and> Acquire F = None \<and> (\<forall>k. CopyFromErr F k = None)
      \<and> (\<forall>k e. NewV1 F k \<noteq> Inl e)
      \<and> (\<forall>line \<in> set (Lines F). \<forall>name \<in> set (curFieldNames F).
            name \<noteq> ''id'' \<longrightarrow> pgConvert E (GuessType E name) (line name) \<noteq> None))"

definition same_run :: "Upload \<Rightarrow> Upload \<Rightarrow> bool" where
  "same_run u u' =
     (pool (factory u') = pool (factory u) \<and> maxSize (factory u') = maxSize (factory u)
      \<and> nbFields (factory u') = nbFields (factory u) \<and> copies u' = copies u
      \<and> nbLines u' = nbLines u)"

definition batch_inv :: "nat \<Rightarrow> nat \<Rightarrow> nat \<Rightarrow> Upload \<Rightarrow> bool" where
  "batch_inv B n p u =
     (maxSize (factory u) = int B \<and> nbFields (factory u) = int n
      \<and> (\<forall>x \<in> set (pool (factory u)). rcap x = n)
      \<and> (\<forall>r \<in> set (rows (factory u)). length (elems r) = n \<and> rcap r = n)
      \<and> length (rows (factory u)) = p \<and> p \<le> B)"

definition sizes :: "Upload \<Rightarrow> nat list" where
  "sizes u = map (\<lambda>c. length (streamed c)) (copies u)"

text \<open>\<open>file12000\<close>: as \<open>file3\<close>, with 12000 lines.\<close>

definition file12000 :: FileEnv where
  "file12000 = file3\<lparr>Lines := replicate 12000 (line_of 200)\<rparr>"

section \<open>Statements about the errors of an upload\<close>

text \<open>
  \<open>errs_ok F u c\<close>: every bulk-copy call made so far that failed, and every call of
  \<open>uuid.NewV1\<close> made so far that failed, failed with the error that \<open>c\<close> returns together
  with the line count 0. With \<open>c = Continue\<close>: none of them failed.
  \<open>file_id_fail\<close>: as \<open>file3\<close>, but the second call of \<open>uuid.NewV1\<close> fails.
\<close>

definition errs_ok :: "FileEnv \<Rightarrow> Upload \<Rightarrow> ctl \<Rightarrow> bool" where
  "errs_ok F u c =
     ((\<forall>x \<in> set (copies u). \<forall>e. copy_err x = Some e \<longrightarrow> c = Returned 0 (Some e))
      \<and> (\<forall>k < ids u. \<forall>e. NewV1 F k = Inl e \<longrightarrow> c = Returned 0 (Some e)))"

definition file_id_fail :: FileEnv where
  "file_id_fail = file3\<lparr>NewV1 := (\<lambda>k. if k = 1 then Inl (Err ''no clock'')
                                     else Inr (replicate (Suc k) CHR ''u''))\<rparr>"

section \<open>Properties of the batch\<close>

lemma wf_RowFactory: "0 \<le> nb \<Longrightarrow> RowFactory mx nb = Some r \<Longrightarrow> wf_Rows r"
  by (auto simp: RowFactory_def wf_Rows_def split: if_splits)

lemma pool_Get_wf:
  "wf_Rows r \<Longrightarrow> \<exists>row rest. pool_Get r = Some (row, rest) \<and> rcap row = nat (nbFields r)
      \<and> list_all (wf_Row (nbFields r)) rest"
  by (auto simp: pool_Get_def pool_New_def wf_Rows_def wf_Row_def split: list.splits)

lemma wf_AddField:
  "wf_Rows r \<Longrightarrow> i < length (rows r) \<Longrightarrow> AddField (rows r ! i) v = (row', e)
     \<Longrightarrow> wf_Rows (r\<lparr>rows := (rows r)[i := row']\<rparr>)"
  by (auto simp: wf_Rows_def wf_Row_def AddField_def list_all_length nth_list_update split: if_splits)

lemma wf_Clear: "wf_Rows r \<Longrightarrow> wf_Rows (Clear r)"
  by (auto simp: wf_Rows_def Clear_def)

text \<open>
  C5. On a well-formed batch, \<open>GetRow\<close> returns no row and the flag \<open>true\<close>, and leaves
  the batch as it is, exactly when the batch holds \<open>maxSize\<close> rows; otherwise it returns
  the flag \<open>false\<close> and a pointer to a row of length 0 and capacity \<open>nbFields\<close> that it
  has appended to the batch, which stays well-formed.
\<close>

theorem GetRow_checkout:
  assumes "wf_Rows r"
  shows "(int (length (rows r)) = maxSize r \<longrightarrow> GetRow r = Some (r, None, True))
       \<and> (int (length (rows r)) \<noteq> maxSize r \<longrightarrow>
            (\<exists>r' row. GetRow r = Some (r', Some (length (rows r)), False)
               \<and> rows r' = rows r @ [row] \<and> elems row = [] \<and> rcap row = nat (nbFields r)
               \<and> maxSize r' = maxSize r \<and> nbFields r' = nbFields r \<and> wf_Rows r'))"
proof (intro conjI impI)
  assume "int (length (rows r)) = maxSize r"
  then show "GetRow r = Some (r, None, True)" by (simp add: GetRow_def)
next
  assume ne: "int (length (rows r)) \<noteq> maxSize r"
  with assms have lt: "int (length (rows r)) < maxSize r" by (simp add: wf_Rows_def)
  from pool_Get_wf [OF assms] obtain row rest where
    g: "pool_Get r = Some (row, rest)" and c: "rcap row = nat (nbFields r)"
    and w: "list_all (wf_Row (nbFields r)) rest" by blast
  let ?r' = "r\<lparr>pool := rest, rows := rows r @ [row\<lparr>elems := []\<rparr>]\<rparr>"
  have "GetRow r = Some (?r', Some (length (rows r)), False)"
    using lt g by (simp add: GetRow_def)
  moreover have "wf_Rows ?r'"
    using assms lt w c by (simp add: wf_Rows_def wf_Row_def)
  ultimately show "\<exists>r' row. GetRow r = Some (r', Some (length (rows r)), False)
               \<and> rows r' = rows r @ [row] \<and> elems row = [] \<and> rcap row = nat (nbFields r)
               \<and> maxSize r' = maxSize r \<and> nbFields r' = nbFields r \<and> wf_Rows r'"
    using c by (intro exI [of _ ?r'] exI [of _ "row\<lparr>elems := []\<rparr>"]) simp
qed

theorem GetRow_checkout_witness:
  "wf_Rows \<lparr>pool = [], maxSize = 1, nbFields = 2, rows = []\<rparr>
   \<and> GetRow \<lparr>pool = [], maxSize = 1, nbFields = 2, rows = []\<rparr>
       = Some (\<lparr>pool = [], maxSize = 1, nbFields = 2, rows = [\<lparr>elems = [], rcap = 2\<rparr>]\<rparr>, Some 0, False)
   \<and> GetRow \<lparr>pool = [], maxSize = 1, nbFields = 2, rows = [\<lparr>elems = [], rcap = 2\<rparr>]\<rparr>
       = Some (\<lparr>pool = [], maxSize = 1, nbFields = 2, rows = [\<lparr>elems = [], rcap = 2\<rparr>]\<rparr>, None, True)"
  using GetRow_checkout [of "\<lparr>pool = [], maxSize = 1, nbFields = 2, rows = []\<rparr>"]
    GetRow_checkout [of "\<lparr>pool = [], maxSize = 1, nbFields = 2, rows = [\<lparr>elems = [], rcap = 2\<rparr>]\<rparr>"]
  by (simp add: wf_Rows_def wf_Row_def GetRow_def pool_Get_def pool_New_def)

lemma first_bad_None:
  "first_bad nb i rs = None \<longleftrightarrow> (\<forall>row \<in> set rs. int (length (elems row)) = nb)"
  by (induction rs arbitrary: i) auto

lemma first_bad_Some:
  "first_bad nb i rs = Some e \<Longrightarrow>
     \<exists>k < length rs. e = WrongNumberOfFields (i + k) nb (length (elems (rs ! k)))
        \<and> int (length (elems (rs ! k))) \<noteq> nb
        \<and> (\<forall>j < k. int (length (elems (rs ! j))) = nb)"
proof (induction rs arbitrary: i)
  case Nil
  then show ?case by simp
next
  case (Cons row rest)
  show ?case
  proof (cases "int (length (elems row)) \<noteq> nb")
    case True
    with Cons.prems show ?thesis by (intro exI [of _ 0]) auto
  next
    case False
    with Cons.prems have "first_bad nb (Suc i) rest = Some e" by simp
    from Cons.IH [OF this] obtain k where k: "k < length rest"
      "e = WrongNumberOfFields (Suc i + k) nb (length (elems (rest ! k)))"
      "int (length (elems (rest ! k))) \<noteq> nb"
      "\<forall>j < k. int (length (elems (rest ! j))) = nb" by blast
    with False show ?thesis
      by (intro exI [of _ "Suc k"]) (auto simp: less_Suc_eq_0_disj)
  qed
qed

text \<open>
  C6. \<open>AddField\<close> on a row that already holds as many values as its capacity returns the
  error \<open>too many fields\<close> and the row as it was; for a row of a well-formed batch the
  capacity is \<open>nbFields\<close>. \<open>GetSource\<close> fails if and only if some row of the batch holds a
  number of values other than \<open>nbFields\<close>, and its error names the index of the first
  such row, \<open>nbFields\<close> and the number of values of that row.
\<close>

theorem AddField_GetSource_errors:
  "(wf_Rows b \<and> row \<in> set (rows b) \<and> int (length (elems row)) = nbFields b
       \<longrightarrow> AddField row v = (row, Some (TooManyFields (nat (nbFields b)))))
   \<and> (rcap row' \<le> length (elems row') \<longrightarrow> AddField row' v = (row', Some (TooManyFields (rcap row'))))
   \<and> ((\<exists>e. GetSource b = Inl e) \<longleftrightarrow> (\<exists>r \<in> set (rows b). int (length (elems r)) \<noteq> nbFields b))
   \<and> (\<forall>e. GetSource b = Inl e \<longrightarrow>
         (\<exists>i < length (rows b).
            e = WrongNumberOfFields i (nbFields b) (length (elems (rows b ! i)))
            \<and> int (length (elems (rows b ! i))) \<noteq> nbFields b
            \<and> (\<forall>j < i. int (length (elems (rows b ! j))) = nbFields b)))"
proof (intro conjI impI allI)
  assume "wf_Rows b \<and> row \<in> set (rows b) \<and> int (length (elems row)) = nbFields b"
  then show "AddField row v = (row, Some (TooManyFields (nat (nbFields b))))"
    by (auto simp: wf_Rows_def wf_Row_def AddField_def list_all_iff)
next
  assume "rcap row' \<le> length (elems row')"
  then show "AddField row' v = (row', Some (TooManyFields (rcap row')))"
    by (simp add: AddField_def)
next
  show "(\<exists>e. GetSource b = Inl e) \<longleftrightarrow> (\<exists>r \<in> set (rows b). int (length (elems r)) \<noteq> nbFields b)"
    using first_bad_None [of "nbFields b" 0 "rows b"]
    by (auto simp: GetSource_def split: option.splits)
next
  fix e assume "GetSource b = Inl e"
  then have "first_bad (nbFields b) 0 (rows b) = Some e"
    by (auto simp: GetSource_def split: option.splits)
  from first_bad_Some [OF this]
  show "\<exists>i < length (rows b).
            e = WrongNumberOfFields i (nbFields b) (length (elems (rows b ! i)))
            \<and> int (length (elems (rows b ! i))) \<noteq> nbFields b
            \<and> (\<forall>j < i. int (length (elems (rows b ! j))) = nbFields b)" by simp
qed

theorem AddField_GetSource_errors_witness:
  "wf_Rows \<lparr>pool = [], maxSize = 2, nbFields = 1,
            rows = [\<lparr>elems = [GoBool True], rcap = 1\<rparr>, \<lparr>elems = [], rcap = 1\<rparr>]\<rparr>
   \<and> AddField \<lparr>elems = [GoBool True], rcap = 1\<rparr> (GoBool False)
       = (\<lparr>elems = [GoBool True], rcap = 1\<rparr>, Some (TooManyFields 1))
   \<and> GetSource \<lparr>pool = [], maxSize = 2, nbFields = 1,
            rows = [\<lparr>elems = [GoBool True], rcap = 1\<rparr>, \<lparr>elems = [], rcap = 1\<rparr>]\<rparr>
       = Inl (WrongNumberOfFields 1 1 0)"
  using AddField_GetSource_errors [of "\<lparr>pool = [], maxSize = 2, nbFields = 1,
            rows = [\<lparr>elems = [GoBool True], rcap = 1\<rparr>, \<lparr>elems = [], rcap = 1\<rparr>]\<rparr>"
       "\<lparr>elems = [GoBool True], rcap = 1\<rparr>" "GoBool False" "\<lparr>elems = [GoBool True], rcap = 1\<rparr>"]
  by (simp add: wf_Rows_def wf_Row_def GetSource_def)

section \<open>Properties of the value converter\<close>

text \<open>
  C3. For every kind, \<open>pgConvert\<close> of the untyped \<open>nil\<close> returns \<open>pgDefaultVal\<close> of the
  kind, which is never the untyped \<open>nil\<close>: a \<open>pgtype\<close> value with status \<open>Null\<close> for
  dates, addresses, timestamps, floats, integers and booleans, the nil pointer of type
  \<open>*MyMyTime\<close> for times, and the empty string for URIs and strings. A date, a time or
  a timestamp that reports to be zero is converted as \<open>nil\<close> is.
\<close>

theorem pgConvert_absent_or_zero:
  "pgConvert E t GoNil = Some (pgDefaultVal t)
   \<and> pgDefaultVal t \<noteq> GoNil
   \<and> pgDefaultVal MyDate = PgDate Null
   \<and> pgDefaultVal MyIP = PgInet Null
   \<and> pgDefaultVal MyTime = MyMyTimePtr None
   \<and> pgDefaultVal MyTimestamp = PgTimestamptz Null None
   \<and> pgDefaultVal Float64 = PgFloat8 Null
   \<and> pgDefaultVal Int64 = PgInt8 Null
   \<and> pgDefaultVal Bool = PgBool Null
   \<and> pgDefaultVal MyURI = GoString []
   \<and> pgDefaultVal String = GoString []
   \<and> (Date_IsZero E d \<longrightarrow> pgConvert E MyDate (ParserDate d) = pgConvert E MyDate GoNil)
   \<and> (Time_IsZero E tm \<longrightarrow> pgConvert E MyTime (ParserTime tm) = pgConvert E MyTime GoNil)
   \<and> pgConvert E MyTimestamp (GoTime 0) = pgConvert E MyTimestamp GoNil"
  by (cases t) (simp_all add: pgConvert_def)

theorem pgConvert_absent_or_zero_witness:
  "Date_IsZero env0 \<lparr>Year = 0, Month = 0, Day = 0\<rparr>
   \<and> Time_IsZero env0 \<lparr>Hour = 0, Minute = 0, Second = 0, Nanosecond = 0\<rparr>
   \<and> pgConvert env0 MyDate (ParserDate \<lparr>Year = 0, Month = 0, Day = 0\<rparr>) = Some (PgDate Null)
   \<and> pgConvert env0 MyTime (ParserTime \<lparr>Hour = 0, Minute = 0, Second = 0, Nanosecond = 0\<rparr>)
        = Some (MyMyTimePtr None)
   \<and> pgConvert env0 Int64 GoNil = Some (PgInt8 Null)"
  using pgConvert_absent_or_zero [of env0 Int64 "\<lparr>Year = 0, Month = 0, Day = 0\<rparr>"
      "\<lparr>Hour = 0, Minute = 0, Second = 0, Nanosecond = 0\<rparr>"]
    pgConvert_absent_or_zero [of env0 MyDate "\<lparr>Year = 0, Month = 0, Day = 0\<rparr>"
      "\<lparr>Hour = 0, Minute = 0, Second = 0, Nanosecond = 0\<rparr>"]
    pgConvert_absent_or_zero [of env0 MyTime "\<lparr>Year = 0, Month = 0, Day = 0\<rparr>"
      "\<lparr>Hour = 0, Minute = 0, Second = 0, Nanosecond = 0\<rparr>"]
  by (simp add: env0_def)

text \<open>
  C4. On a string that is valid UTF-8, \<open>decodeCharset\<close> returns the string itself. Its
  result is a function of the string and of the two library functions it calls (the
  decoder and the transliteration) and of nothing else.
\<close>

theorem decodeCharset_valid:
  "(ValidString s \<longrightarrow> decodeCharset E s = s)
   \<and> (isoDecoder_String E' = isoDecoder_String E \<and> Unidecode E' = Unidecode E
        \<longrightarrow> decodeCharset E' s = decodeCharset E s)"
  by (auto simp: decodeCharset_def split: sum.splits)

theorem decodeCharset_valid_witness:
  "ValidString [CHR ''c'', CHR ''a'', CHR ''f'', CHR 0xC3, CHR 0xA9]
   \<and> decodeCharset env0 [CHR ''c'', CHR ''a'', CHR ''f'', CHR 0xC3, CHR 0xA9]
       = [CHR ''c'', CHR ''a'', CHR ''f'', CHR 0xC3, CHR 0xA9]
   \<and> \<not> ValidString [CHR ''c'', CHR 0xE9]"
  using decodeCharset_valid [of "[CHR ''c'', CHR ''a'', CHR ''f'', CHR 0xC3, CHR 0xA9]" env0 env0]
  by (simp add: byte_def first_def continuation_def)

lemma usecs_word:
  "Hour t * usecsPerHour + Minute t * usecsPerMinute + Second t * usecsPerSec
      + quo64 (Nanosecond t) nanosecsPerUsec
   = (word_of_int (sint (Hour t) * 3600000000 + sint (Minute t) * 60000000
        + sint (Second t) * 1000000 + sint (Nanosecond t) sdiv 1000) :: int64)"
  by (simp add: quo64_def usecsPerHour_def usecsPerMinute_def usecsPerSec_def nanosecsPerUsec_def)

lemma sint_in_range:
  "- (2 ^ 63) \<le> k \<Longrightarrow> k < 2 ^ 63 \<Longrightarrow> sint (word_of_int k :: int64) = k"
  by (simp add: sint_sbintrunc' signed_take_bit_int_eq_self)

lemma sdiv_nonneg: "0 \<le> a \<Longrightarrow> a sdiv (1000::int) = a div 1000"
  by (simp add: signed_divide_int_def sgn_if)

lemma usecs_exact:
  fixes h m s ns :: int
  assumes "0 \<le> h" "h < 24" "0 \<le> m" "m < 60" "0 \<le> s" "s < 60" "0 \<le> ns" "ns < 1000000000"
  shows "sint (word_of_int (h * 3600000000 + m * 60000000 + s * 1000000 + ns sdiv 1000) :: int64)
         = h * 3600000000 + m * 60000000 + s * 1000000 + ns div 1000"
proof -
  have q: "ns sdiv 1000 = ns div 1000" using assms by (simp add: sdiv_nonneg)
  have q0: "0 \<le> ns div 1000" using assms by simp
  have q1: "ns div 1000 < 1000000" using assms by simp
  have lo: "- (2 ^ 63) \<le> h * 3600000000 + m * 60000000 + s * 1000000 + ns div 1000"
    using assms q0 by simp
  have hi: "h * 3600000000 + m * 60000000 + s * 1000000 + ns div 1000 < 2 ^ 63"
    using assms q1 by simp
  show ?thesis unfolding q by (rule sint_in_range [OF lo hi])
qed

text \<open>
  C7. \<open>EncodeBinary\<close> on a time that is not nil appends to the buffer the eight bytes,
  most significant first, of the 64-bit integer
  \<open>Hour * 3600000000 + Minute * 60000000 + Second * 1000000 + Nanosecond / 1000\<close>, the
  division truncating; for a time of day within its ranges that integer is the number of
  microseconds since midnight, without any wrap-around.
\<close>

theorem EncodeBinary_usecs:
  "EncodeBinary None buf = (None, None)
   \<and> EncodeBinary (Some t) buf
       = (Some (AppendInt64 buf
            (word_of_int (sint (Hour t) * 3600000000 + sint (Minute t) * 60000000
                 + sint (Second t) * 1000000 + sint (Nanosecond t) sdiv 1000))), None)
   \<and> AppendInt64 buf n
       = buf @ [ucast (drop_bit 56 n), ucast (drop_bit 48 n), ucast (drop_bit 40 n),
                ucast (drop_bit 32 n), ucast (drop_bit 24 n), ucast (drop_bit 16 n),
                ucast (drop_bit 8 n), ucast n]
   \<and> (0 \<le> sint (Hour t) \<and> sint (Hour t) < 24 \<and> 0 \<le> sint (Minute t) \<and> sint (Minute t) < 60
        \<and> 0 \<le> sint (Second t) \<and> sint (Second t) < 60
        \<and> 0 \<le> sint (Nanosecond t) \<and> sint (Nanosecond t) < 1000000000
       \<longrightarrow> sint (word_of_int (sint (Hour t) * 3600000000 + sint (Minute t) * 60000000
                 + sint (Second t) * 1000000 + sint (Nanosecond t) sdiv 1000) :: int64)
           = sint (Hour t) * 3600000000 + sint (Minute t) * 60000000
                 + sint (Second t) * 1000000 + sint (Nanosecond t) div 1000)"
proof (intro conjI impI)
  show "EncodeBinary None buf = (None, None)" by (simp add: EncodeBinary_def)
next
  show "EncodeBinary (Some t) buf
       = (Some (AppendInt64 buf
            (word_of_int (sint (Hour t) * 3600000000 + sint (Minute t) * 60000000
                 + sint (Second t) * 1000000 + sint (Nanosecond t) sdiv 1000))), None)"
    unfolding EncodeBinary_def usecs_word by simp
next
  show "AppendInt64 buf n
       = buf @ [ucast (drop_bit 56 n), ucast (drop_bit 48 n), ucast (drop_bit 40 n),
                ucast (drop_bit 32 n), ucast (drop_bit 24 n), ucast (drop_bit 16 n),
                ucast (drop_bit 8 n), ucast n]"
    by (simp add: AppendInt64_def)
next
  assume "0 \<le> sint (Hour t) \<and> sint (Hour t) < 24 \<and> 0 \<le> sint (Minute t) \<and> sint (Minute t) < 60
        \<and> 0 \<le> sint (Second t) \<and> sint (Second t) < 60
        \<and> 0 \<le> sint (Nanosecond t) \<and> sint (Nanosecond t) < 1000000000"
  then show "sint (word_of_int (sint (Hour t) * 3600000000 + sint (Minute t) * 60000000
                 + sint (Second t) * 1000000 + sint (Nanosecond t) sdiv 1000) :: int64)
           = sint (Hour t) * 3600000000 + sint (Minute t) * 60000000
                 + sint (Second t) * 1000000 + sint (Nanosecond t) div 1000"
    using usecs_exact [of "sint (Hour t)" "sint (Minute t)" "sint (Second t)" "sint (Nanosecond t)"]
    by blast
qed

theorem EncodeBinary_usecs_witness:
  "EncodeBinary (Some \<lparr>Hour = 23, Minute = 59, Second = 58, Nanosecond = 123456789\<rparr>) [1, 2]
     = (Some [1, 2, 0, 0, 0, 0x14, 0x1D, 0xBA, 0xBD, 0xC0], None)
   \<and> sint (word_of_int (23 * 3600000000 + 59 * 60000000 + 58 * 1000000 + 123456) :: int64)
       = 86398123456"
  using EncodeBinary_usecs [of "[1, 2]" "\<lparr>Hour = 23, Minute = 59, Second = 58, Nanosecond = 123456789\<rparr>"
      "86398123456"]
  by (simp add: signed_divide_int_def)

section \<open>Properties of the mapping\<close>

lemma dom_FLoop:
  "dom (FLoop E ex names m) = dom m \<union> {n \<in> set names. \<not> excluded ex (ToLower E n)}"
  by (induction names arbitrary: m) auto

lemma Copy_guessed: "Copy (guessed_field k) = [] \<or> Copy (guessed_field k) = ''fulltext''"
  by (cases k)
     (simp_all add: guessed_field_def newDateField_def newIPField_def newTimeField_def
        newDatetimeField_def newKeyword_def newDoubleField_def newLongField_def newBoolField_def)

lemma Copy_new: "Copy newMulti = ''fulltext''" "Copy (newTextField True) = ''fulltext''"
  by (simp_all add: newMulti_def newTextField_def)

lemma Copy_upd:
  "\<forall>n f. m n = Some f \<longrightarrow> Copy f = [] \<or> Copy f = ''fulltext''
   \<Longrightarrow> Copy g = [] \<or> Copy g = ''fulltext''
   \<Longrightarrow> \<forall>n f. (m(k \<mapsto> g)) n = Some f \<longrightarrow> Copy f = [] \<or> Copy f = ''fulltext''"
  by (auto split: if_splits)

lemma Copy_FLoop:
  "\<forall>n f. m n = Some f \<longrightarrow> Copy f = [] \<or> Copy f = ''fulltext''
   \<Longrightarrow> \<forall>n f. FLoop E ex names m n = Some f \<longrightarrow> Copy f = [] \<or> Copy f = ''fulltext''"
proof (induction names arbitrary: m)
  case Nil
  then show ?case by simp
next
  case (Cons name rest)
  note keep = Cons.IH [OF Copy_upd [OF Cons.prems]]
  show ?case
    using Cons.IH [OF Cons.prems] keep [of newMulti name] keep [of "newTextField True" name]
      keep [of "guessed_field (GuessType E name)" name] Copy_guessed [of "GuessType E name"]
    by (auto simp add: Copy_new simp del: fun_upd_apply)
qed

text \<open>
  C8. The keys of the mapping built by \<open>newMessageFields\<close> are the field names whose
  lower-cased form is not excluded, and the two names \<open>@timestamp\<close> and \<open>fulltext\<close>,
  whatever the field names and the excludes are. \<open>@timestamp\<close> is a stored date-time
  field; \<open>fulltext\<close> is a text field that is not stored; and every field of the mapping
  that copies its value copies it to \<open>fulltext\<close>.
\<close>

theorem newMessageFields_mapping:
  "dom (newMessageFields E fieldNames excludes)
     = {n \<in> set fieldNames. \<not> excluded excludes (ToLower E n)} \<union> {''@timestamp'', ''fulltext''}
   \<and> newMessageFields E fieldNames excludes ''@timestamp''
       = Some (datetimeEsField ''date'' ''strict_date_time_no_millis||strict_date_time'' True)
   \<and> newMessageFields E fieldNames excludes ''fulltext'' = Some (strEsField ''text'' False [])
   \<and> (\<forall>n f. newMessageFields E fieldNames excludes n = Some f
         \<longrightarrow> Copy f = [] \<or> Copy f = ''fulltext'')"
proof (intro conjI allI impI)
  show "dom (newMessageFields E fieldNames excludes)
     = {n \<in> set fieldNames. \<not> excluded excludes (ToLower E n)} \<union> {''@timestamp'', ''fulltext''}"
    by (auto simp: newMessageFields_def dom_FLoop)
next
  show "newMessageFields E fieldNames excludes ''@timestamp''
       = Some (datetimeEsField ''date'' ''strict_date_time_no_millis||strict_date_time'' True)"
    by (simp add: newMessageFields_def newDatetimeField_def)
next
  show "newMessageFields E fieldNames excludes ''fulltext'' = Some (strEsField ''text'' False [])"
    by (simp add: newMessageFields_def)
next
  fix n f assume a: "newMessageFields E fieldNames excludes n = Some f"
  show "Copy f = [] \<or> Copy f = ''fulltext''"
  proof (cases "n = ''fulltext'' \<or> n = ''@timestamp''")
    case True
    with a show ?thesis by (auto simp: newMessageFields_def newDatetimeField_def split: if_splits)
  next
    case False
    with a have "FLoop E excludes fieldNames Map.empty n = Some f"
      by (simp add: newMessageFields_def)
    then show ?thesis using Copy_FLoop [of Map.empty E excludes fieldNames] by simp
  qed
qed

theorem newMessageFields_mapping_witness:
  "dom (newMessageFields env0 [''cs-host'', ''sc-status'', ''x-custom''] [''x-custom'' \<mapsto> True])
     = {''cs-host'', ''sc-status'', ''@timestamp'', ''fulltext''}
   \<and> newMessageFields env0 [''cs-host'', ''sc-status'', ''x-custom''] [''x-custom'' \<mapsto> True] ''cs-host''
       = Some (strMultiEsField ''text'' True ''keyword'' ''fulltext'')
   \<and> newMessageFields env0 [''cs-host'', ''sc-status'', ''x-custom''] [''x-custom'' \<mapsto> True] ''sc-status''
       = Some (longEsField ''long'' True)
   \<and> newMessageFields env0 [''cs-host'', ''sc-status'', ''x-custom''] [''x-custom'' \<mapsto> True] ''x-custom''
       = None"
  using newMessageFields_mapping [of env0 "[''cs-host'', ''sc-status'', ''x-custom'']" "[''x-custom'' \<mapsto> True]"]
  by (auto simp: newMessageFields_def env0_def excluded_def newMulti_def guessed_field_def newLongField_def)

section \<open>Properties of an upload\<close>

text \<open>
  What the driver reads from a cursor: the rows after the one at \<open>idx\<close>. A cursor from
  \<open>GetSource\<close> starts at \<open>idx = 0\<close>, so the driver reads the rows of the batch but the
  first.
\<close>

lemma drain_eq: "drain s = Some (map elems (drop (Suc (idx s)) (src_rows s)))"
proof (induction s rule: drain.induct)
  case (1 s)
  show ?case
  proof (cases "Suc (idx s) < length (src_rows s)")
    case True
    then have n: "fst (Next s)" by (simp add: Next_def)
    have v: "Values (snd (Next s)) = Some (elems (src_rows s ! Suc (idx s)))"
      using True by (simp add: Next_def Values_def)
    have d: "drain (snd (Next s)) = Some (map elems (drop (Suc (Suc (idx s))) (src_rows s)))"
      using "1.IH" [OF n v] by (simp add: Next_def)
    have "drop (Suc (idx s)) (src_rows s) = src_rows s ! Suc (idx s) # drop (Suc (Suc (idx s))) (src_rows s)"
      using True by (simp add: Cons_nth_drop_Suc)
    then show ?thesis using n v d by (subst drain.simps) simp
  next
    case False
    then have "\<not> fst (Next s)" by (simp add: Next_def)
    then show ?thesis using False by (subst drain.simps) simp
  qed
qed

lemma add_or_return_cases:
  "add_or_return u row v = (u', c) \<Longrightarrow>
     c = Continue \<or> c = Panicked \<or> (\<exists>e. c = Returned 0 (Some e))"
  by (auto simp: add_or_return_def split: option.splits prod.splits)

lemma add_or_return_keeps:
  "add_or_return u row v = (u', c) \<Longrightarrow> nbLines u' = nbLines u \<and> copies u' = copies u"
  by (auto simp: add_or_return_def ptr_AddField_def split: option.splits prod.splits if_splits)

lemma fill_row_cases:
  "fill_row E F line row names u = (u', c) \<Longrightarrow>
     (c = Continue \<or> c = Panicked \<or> (\<exists>e. c = Returned 0 (Some e)))
     \<and> nbLines u' = nbLines u \<and> copies u' = copies u"
proof (induction names arbitrary: u)
  case Nil
  then show ?case by simp
next
  case (Cons name names)
  show ?case
  proof (cases "name = ''id''")
    case True
    show ?thesis
    proof (cases "NewV1 F (ids u)")
      case (Inl e)
      with True Cons.prems show ?thesis by auto
    next
      case (Inr uuid)
      obtain u1 c1 where a: "add_or_return (u\<lparr>ids := Suc (ids u)\<rparr>) row (GoBytes uuid) = (u1, c1)"
        by (cases "add_or_return (u\<lparr>ids := Suc (ids u)\<rparr>) row (GoBytes uuid)")
      show ?thesis
      proof (cases "c1 = Continue")
        case True
        with \<open>name = ''id''\<close> Inr a Cons.prems have "fill_row E F line row names u1 = (u', c)" by simp
        from Cons.IH [OF this] add_or_return_keeps [OF a] show ?thesis by simp
      next
        case False
        with \<open>name = ''id''\<close> Inr a Cons.prems have "u' = u1" "c = c1"
          by (cases c1; simp)+
        with add_or_return_cases [OF a] add_or_return_keeps [OF a] show ?thesis by simp
      qed
    qed
  next
    case False
    show ?thesis
    proof (cases "pgConvert E (GuessType E name) (line name)")
      case None
      with False Cons.prems show ?thesis by auto
    next
      case (Some v)
      obtain u1 c1 where a: "add_or_return u row v = (u1, c1)"
        by (cases "add_or_return u row v")
      show ?thesis
      proof (cases "c1 = Continue")
        case True
        with False Some a Cons.prems have "fill_row E F line row names u1 = (u', c)" by simp
        from Cons.IH [OF this] add_or_return_keeps [OF a] show ?thesis by simp
      next
        case nc: False
        with False Some a Cons.prems have "u' = u1" "c = c1"
          by (cases c1; simp)+
        with add_or_return_cases [OF a] add_or_return_keeps [OF a] show ?thesis by simp
      qed
    qed
  qed
qed

lemma uploadRows_simp:
  "uploadRows E F cols u =
     (if rows (factory u) = [] then (u, FlushOk)
      else (case first_bad (nbFields (factory u)) 0 (rows (factory u)) of
              Some err \<Rightarrow> (u, FlushErr err)
            | None \<Rightarrow>
                (let call = \<lparr>table = tableName E, columns = cols,
                              streamed = map elems (tl (rows (factory u))),
                              copy_err = CopyFromErr F (length (copies u))\<rparr>
                 in (case CopyFromErr F (length (copies u)) of
                       Some e \<Rightarrow> (u\<lparr>copies := copies u @ [call]\<rparr>, FlushErr e)
                     | None \<Rightarrow> (u\<lparr>copies := copies u @ [call], factory := Clear (factory u)\<rparr>, FlushOk)))))"
  by (simp add: uploadRows_def Len_def GetSource_def drain_eq Let_def drop_Suc
        split: option.splits)

lemma uploadRows_keeps: "uploadRows E F cols u = (u', fl) \<Longrightarrow> nbLines u' = nbLines u"
  unfolding uploadRows_simp by (auto simp: Let_def split: if_splits option.splits)

lemma uploadRows_not_panic: "uploadRows E F cols u \<noteq> (u', FlushPanic)"
  unfolding uploadRows_simp by (auto simp: Let_def split: if_splits option.splits)

lemma next_row_cases:
  assumes "next_row E F cols u = ((u', row), c)"
  shows "(c = Continue \<or> c = Panicked \<or> (\<exists>e. c = Returned 0 (Some e))) \<and> nbLines u' = nbLines u"
proof (cases "GetRow (factory u)")
  case None
  with assms show ?thesis by (simp add: next_row_def)
next
  case (Some g)
  obtain f1 r1 full where g: "g = (f1, r1, full)" by (cases g)
  show ?thesis
  proof (cases full)
    case False
    with assms Some g show ?thesis by (auto simp: next_row_def)
  next
    case True
    obtain u1 fl where up: "uploadRows E F cols (u\<lparr>factory := f1\<rparr>) = (u1, fl)"
      by (cases "uploadRows E F cols (u\<lparr>factory := f1\<rparr>)")
    from uploadRows_keeps [OF up] have k: "nbLines u1 = nbLines u" by simp
    show ?thesis
    proof (cases fl)
      case FlushPanic
      with assms Some g True up k show ?thesis by (auto simp: next_row_def)
    next
      case (FlushErr e)
      with assms Some g True up k show ?thesis by (auto simp: next_row_def)
    next
      case FlushOk
      with assms Some g True up k show ?thesis
        by (cases "GetRow (factory u1)") (auto simp: next_row_def)
    qed
  qed
qed

lemma upload_lines_cases:
  "upload_lines E F cur cols ls u = (u', c) \<Longrightarrow>
     (c = Continue \<and> nbLines u' = nbLines u + length ls) \<or> c = Panicked
       \<or> (\<exists>e. c = Returned 0 (Some e))"
proof (induction ls arbitrary: u)
  case Nil
  then show ?case by simp
next
  case (Cons line rest)
  obtain u1 row c1 where n: "next_row E F cols u = ((u1, row), c1)"
    by (cases "next_row E F cols u") auto
  note nc = next_row_cases [OF n]
  show ?case
  proof (cases "c1 = Continue")
    case False
    with n Cons.prems have "c = c1" by (cases c1; simp)
    with nc False show ?thesis by auto
  next
    case True
    obtain u2 c2 where f: "fill_row E F line row cur (u1\<lparr>nbLines := Suc (nbLines u1)\<rparr>) = (u2, c2)"
      by (cases "fill_row E F line row cur (u1\<lparr>nbLines := Suc (nbLines u1)\<rparr>)")
    note fc = fill_row_cases [OF f]
    show ?thesis
    proof (cases "c2 = Continue")
      case False
      with True n f Cons.prems have "c = c2" by (cases c2; simp)
      with fc False show ?thesis by auto
    next
      case c2: True
      with True n f Cons.prems have "upload_lines E F cur cols rest u2 = (u', c)" by simp
      from Cons.IH [OF this] fc nc show ?thesis by auto
    qed
  qed
qed


lemma uploadPG_cases:
  obtains (header) e where "ParseHeader F = Some e"
      "uploadPG E F b = \<lparr>printed = [ErrorBuildingParser e], bulk = [], vacuumed = False,
           released = False, ending = Returned 0 (Some e)\<rparr>"
  | (acquire) e where "ParseHeader F = None" "Acquire F = Some e"
      "uploadPG E F b = \<lparr>printed = [], bulk = [], vacuumed = False,
           released = False, ending = Returned 0 (Some e)\<rparr>"
  | (factory) "ParseHeader F = None" "Acquire F = None" "b < 0"
      "uploadPG E F b = \<lparr>printed = [], bulk = [], vacuumed = False,
           released = True, ending = Panicked\<rparr>"
  | (loop) fac u c where "ParseHeader F = None" "Acquire F = None"
      "RowFactory b (int (length (curFieldNames F))) = Some fac"
      "upload_lines E F (curFieldNames F) (map (pgKey E) (curFieldNames F)) (Lines F)
          \<lparr>factory = fac, nbLines = 0, copies = [], ids = 0\<rparr> = (u, c)"
      "c \<noteq> Continue"
      "uploadPG E F b = \<lparr>printed = [], bulk = copies u, vacuumed = False,
           released = True, ending = c\<rparr>"
  | (flush) fac u u' e where "ParseHeader F = None" "Acquire F = None"
      "RowFactory b (int (length (curFieldNames F))) = Some fac"
      "upload_lines E F (curFieldNames F) (map (pgKey E) (curFieldNames F)) (Lines F)
          \<lparr>factory = fac, nbLines = 0, copies = [], ids = 0\<rparr> = (u, Continue)"
      "uploadRows E F (map (pgKey E) (curFieldNames F)) u = (u', FlushErr e)"
      "uploadPG E F b = \<lparr>printed = [], bulk = copies u', vacuumed = False,
           released = True, ending = Returned 0 (Some e)\<rparr>"
  | (vacuum) fac u u' where "ParseHeader F = None" "Acquire F = None"
      "RowFactory b (int (length (curFieldNames F))) = Some fac"
      "upload_lines E F (curFieldNames F) (map (pgKey E) (curFieldNames F)) (Lines F)
          \<lparr>factory = fac, nbLines = 0, copies = [], ids = 0\<rparr> = (u, Continue)"
      "uploadRows E F (map (pgKey E) (curFieldNames F)) u = (u', FlushOk)"
      "uploadPG E F b = \<lparr>printed = [], bulk = copies u', vacuumed = True,
           released = True, ending = Returned (nbLines u') (ExecVacuum F)\<rparr>"
proof (cases "ParseHeader F")
  case (Some e)
  then show ?thesis by (intro header [of e]) (simp_all add: uploadPG_def)
next
  case None
  note h = this
  show ?thesis
  proof (cases "Acquire F")
    case (Some e)
    with h show ?thesis by (intro acquire [of e]) (simp_all add: uploadPG_def Let_def)
  next
    case None
    note a = this
    show ?thesis
    proof (cases "RowFactory b (int (length (curFieldNames F)))")
      case None
      then have "b < 0" by (simp add: RowFactory_def split: if_splits)
      with h a None show ?thesis by (intro factory) (simp_all add: uploadPG_def Let_def)
    next
      case (Some fac)
      obtain u c where l: "upload_lines E F (curFieldNames F) (map (pgKey E) (curFieldNames F)) (Lines F)
          \<lparr>factory = fac, nbLines = 0, copies = [], ids = 0\<rparr> = (u, c)"
        by (cases "upload_lines E F (curFieldNames F) (map (pgKey E) (curFieldNames F)) (Lines F)
          \<lparr>factory = fac, nbLines = 0, copies = [], ids = 0\<rparr>")
      show ?thesis
      proof (cases "c = Continue")
        case False
        with h a Some l show ?thesis
          by (intro loop [of fac u c]) (cases c; simp add: uploadPG_def Let_def)+
      next
        case True
        obtain u' fl where f: "uploadRows E F (map (pgKey E) (curFieldNames F)) u = (u', fl)"
          by (cases "uploadRows E F (map (pgKey E) (curFieldNames F)) u")
        show ?thesis
        proof (cases fl)
          case FlushPanic
          with f uploadRows_not_panic show ?thesis by blast
        next
          case (FlushErr e)
          with h a Some l True f show ?thesis
            by (intro flush [of fac u u' e]) (simp_all add: uploadPG_def Let_def)
        next
          case FlushOk
          with h a Some l True f show ?thesis
            by (intro vacuum [of fac u u']) (simp_all add: uploadPG_def Let_def)
        qed
      qed
    qed
  qed
qed


lemmas run_simps = uploadPG_def curFieldNames_def RowFactory_def next_row_def GetRow_def
  pool_Get_def pool_New_def uploadRows_simp Clear_def add_or_return_def ptr_AddField_def
  AddField_def pgConvert_def Let_def

lemmas env_simps = env0_def env1_def file3_def file3_failing_def line_of_def flags1_def


section \<open>Properties of a run over several files\<close>












section \<open>The flush cadence\<close>

lemma loop_flushes_eq:
  "1 \<le> B \<Longrightarrow> 1 \<le> p \<Longrightarrow> p \<le> B \<Longrightarrow>
     loop_flushes B p L = replicate ((p + L - 1) div B) B \<and> pending B p L = (p + L - 1) mod B + 1"
proof (induction L arbitrary: p)
  case 0
  then show ?case by simp
next
  case (Suc L)
  show ?case
  proof (cases "p < B")
    case True
    with Suc.prems Suc.IH [of "Suc p"] show ?thesis by simp
  next
    case False
    with Suc.prems have pB: "p = B" by simp
    have d: "(B + L) div B = Suc (L div B)" using Suc.prems pB by (simp add: div_add_self1)
    have m: "(B + L) mod B = L mod B" by simp
    from Suc.IH [of 1] Suc.prems pB d m show ?thesis by simp
  qed
qed

lemma all_flushes_eq:
  assumes "1 \<le> B"
  shows "loop_flushes B 0 L @ (if pending B 0 L = 0 then [] else [pending B 0 L])
         = replicate (L div B) B @ (if L mod B = 0 then [] else [L mod B])"
proof (cases L)
  case 0
  then show ?thesis by simp
next
  case (Suc K)
  from loop_flushes_eq [of B 1 K] assms
  have lf: "loop_flushes B 0 L = replicate (K div B) B" and pe: "pending B 0 L = K mod B + 1"
    using Suc by simp_all
  show ?thesis
  proof (cases "Suc K mod B = 0")
    case True
    then have "B dvd Suc K" by (simp add: mod_eq_0_iff_dvd)
    then obtain q where q: "Suc K = q * B" by (auto simp: dvd_def mult.commute)
    with assms have q1: "1 \<le> q" by (cases q) simp_all
    then obtain q' where q': "q = Suc q'" by (cases q) simp_all
    define r where "r = B - 1"
    have r: "r < B" "Suc r = B" using assms by (simp_all add: r_def)
    have K: "K = q' * B + r" using q q' r by simp
    have "K div B = q'" using r(1) unfolding K by simp
    moreover have "K mod B = r" using r(1) unfolding K by simp
    moreover have "Suc K div B = Suc q'" using q q' assms by simp
    ultimately show ?thesis using lf pe Suc True r
      by (simp add: replicate_append_same)
  next
    case False
    have "Suc K mod B = Suc (K mod B)" using False by (metis mod_Suc)
    moreover have "Suc K div B = K div B" using False by (metis div_Suc)
    ultimately show ?thesis using lf pe Suc False by simp
  qed
qed

lemma add_ok:
  assumes "rows (factory u) = rs @ [r]" "length (elems r) < rcap r"
  shows "add_or_return u (Some (length rs)) v
         = (u\<lparr>factory := (factory u)\<lparr>rows := rs @ [r\<lparr>elems := elems r @ [v]\<rparr>]\<rparr>\<rparr>, Continue)"
  using assms by (simp add: add_or_return_def ptr_AddField_def AddField_def)

lemma fill_ok:
  assumes "rows (factory u) = rs @ [r]" "length (elems r) + length names \<le> rcap r"
    and "\<forall>k e. NewV1 F k \<noteq> Inl e"
    and "\<forall>name \<in> set names. name \<noteq> ''id'' \<longrightarrow> pgConvert E (GuessType E name) (line name) \<noteq> None"
  shows "\<exists>u' r'. fill_row E F line (Some (length rs)) names u = (u', Continue)
           \<and> rows (factory u') = rs @ [r'] \<and> length (elems r') = length (elems r) + length names
           \<and> rcap r' = rcap r \<and> same_run u u'"
  using assms
proof (induction names arbitrary: u r)
  case Nil
  then show ?case by (simp add: same_run_def)
next
  case (Cons name names)
  have lt: "length (elems r) < rcap r" using Cons.prems(2) by simp
  have step: "\<exists>u' r'. fill_row E F line (Some (length rs)) names u1 = (u', Continue)
           \<and> rows (factory u') = rs @ [r'] \<and> length (elems r') = length (elems r) + length (name # names)
           \<and> rcap r' = rcap r \<and> same_run u u'"
    if a: "rows (factory u1) = rs @ [r\<lparr>elems := elems r @ [v]\<rparr>]" and sr: "same_run u u1" for u1 v
  proof -
    have "length (elems (r\<lparr>elems := elems r @ [v]\<rparr>)) + length names \<le> rcap (r\<lparr>elems := elems r @ [v]\<rparr>)"
      using Cons.prems(2) by simp
    from Cons.IH [OF a this Cons.prems(3)] Cons.prems(4)
    obtain u' r' where "fill_row E F line (Some (length rs)) names u1 = (u', Continue)"
      "rows (factory u') = rs @ [r']"
      "length (elems r') = length (elems (r\<lparr>elems := elems r @ [v]\<rparr>)) + length names"
      "rcap r' = rcap (r\<lparr>elems := elems r @ [v]\<rparr>)" "same_run u1 u'" by auto
    with sr show ?thesis by (auto simp: same_run_def)
  qed
  show ?case
  proof (cases "name = ''id''")
    case True
    from Cons.prems(3) obtain b where b: "NewV1 F (ids u) = Inr b"
      by (cases "NewV1 F (ids u)") auto
    let ?u0 = "u\<lparr>ids := Suc (ids u)\<rparr>"
    let ?u1 = "?u0\<lparr>factory := (factory ?u0)\<lparr>rows := rs @ [r\<lparr>elems := elems r @ [GoBytes b]\<rparr>]\<rparr>\<rparr>"
    have a: "add_or_return ?u0 (Some (length rs)) (GoBytes b) = (?u1, Continue)"
      using add_ok [of ?u0 rs r "GoBytes b"] Cons.prems(1) lt by simp
    have e: "fill_row E F line (Some (length rs)) (name # names) u
             = fill_row E F line (Some (length rs)) names ?u1"
      using True b a by simp
    show ?thesis unfolding e by (rule step) (simp_all add: same_run_def)
  next
    case False
    with Cons.prems(4) obtain v where v: "pgConvert E (GuessType E name) (line name) = Some v"
      by auto
    let ?u1 = "u\<lparr>factory := (factory u)\<lparr>rows := rs @ [r\<lparr>elems := elems r @ [v]\<rparr>]\<rparr>\<rparr>"
    have a: "add_or_return u (Some (length rs)) v = (?u1, Continue)"
      using add_ok [of u rs r v] Cons.prems(1) lt by simp
    have e: "fill_row E F line (Some (length rs)) (name # names) u
             = fill_row E F line (Some (length rs)) names ?u1"
      using False v a by simp
    show ?thesis unfolding e by (rule step) (simp_all add: same_run_def)
  qed
qed

lemma GetRow_ok:
  assumes "batch_inv B n p u" "p < B"
  shows "\<exists>f r0. GetRow (factory u) = Some (f, Some p, False) \<and> rows f = rows (factory u) @ [r0]
           \<and> elems r0 = [] \<and> rcap r0 = n \<and> maxSize f = int B \<and> nbFields f = int n
           \<and> (\<forall>x \<in> set (pool f). rcap x = n)"
proof (cases "pool (factory u)")
  case Nil
  with assms show ?thesis
    by (simp add: GetRow_def pool_Get_def pool_New_def batch_inv_def)
next
  case (Cons x xs)
  with assms show ?thesis
    by (simp add: GetRow_def pool_Get_def batch_inv_def)
qed

lemma flush_ok:
  assumes "batch_inv B n p u" "1 \<le> p" "\<forall>k. CopyFromErr F k = None"
  shows "\<exists>u1. uploadRows E F cols u = (u1, FlushOk) \<and> batch_inv B n 0 u1
           \<and> nbLines u1 = nbLines u \<and> sizes u1 = sizes u @ [p - 1]"
proof -
  have ne: "rows (factory u) \<noteq> []" using assms by (auto simp: batch_inv_def)
  have fb: "first_bad (nbFields (factory u)) 0 (rows (factory u)) = None"
    using assms(1) by (simp add: first_bad_None batch_inv_def)
  let ?call = "\<lparr>table = tableName E, columns = cols,
                 streamed = map elems (tl (rows (factory u))), copy_err = None\<rparr>"
  let ?u1 = "u\<lparr>copies := copies u @ [?call], factory := Clear (factory u)\<rparr>"
  have "uploadRows E F cols u = (?u1, FlushOk)"
    using ne fb assms(3) by (simp add: uploadRows_simp)
  moreover have "batch_inv B n 0 ?u1"
    using assms(1) by (auto simp: batch_inv_def Clear_def)
  moreover have "sizes ?u1 = sizes u @ [p - 1]"
    using assms(1) by (simp add: sizes_def batch_inv_def)
  ultimately show ?thesis by (intro exI [of _ ?u1]) simp
qed

lemma next_row_ok:
  assumes "batch_inv B n p u" "1 \<le> B" "\<forall>k. CopyFromErr F k = None"
  shows "\<exists>u1 rs r0. next_row E F cols u = ((u1, Some (length rs)), Continue)
           \<and> rows (factory u1) = rs @ [r0] \<and> elems r0 = [] \<and> rcap r0 = n
           \<and> (\<forall>r \<in> set rs. length (elems r) = n \<and> rcap r = n)
           \<and> length rs = (if p < B then p else 0)
           \<and> maxSize (factory u1) = int B \<and> nbFields (factory u1) = int n
           \<and> (\<forall>x \<in> set (pool (factory u1)). rcap x = n)
           \<and> nbLines u1 = nbLines u
           \<and> sizes u1 = sizes u @ (if p < B then [] else [p - 1])"
proof (cases "p < B")
  case True
  from GetRow_ok [OF assms(1) True] obtain f r0 where
    g: "GetRow (factory u) = Some (f, Some p, False)" "rows f = rows (factory u) @ [r0]"
       "elems r0 = []" "rcap r0 = n" "maxSize f = int B" "nbFields f = int n"
       "\<forall>x \<in> set (pool f). rcap x = n" by blast
  have "next_row E F cols u = ((u\<lparr>factory := f\<rparr>, Some p), Continue)"
    using g(1) by (simp add: next_row_def)
  with g assms(1) True show ?thesis
    by (intro exI [of _ "u\<lparr>factory := f\<rparr>"] exI [of _ "rows (factory u)"] exI [of _ r0])
       (simp add: batch_inv_def sizes_def)
next
  case False
  with assms(1) have pB: "p = B" by (simp add: batch_inv_def)
  have g0: "GetRow (factory u) = Some (factory u, None, True)"
    using assms(1) pB by (simp add: GetRow_def batch_inv_def)
  from flush_ok [OF assms(1) _ assms(3), of E cols] pB assms(2) obtain u1 where
    f: "uploadRows E F cols u = (u1, FlushOk)" "batch_inv B n 0 u1" "nbLines u1 = nbLines u"
       "sizes u1 = sizes u @ [p - 1]" by auto
  from GetRow_ok [OF f(2)] assms(2) obtain f2 r0 where
    g: "GetRow (factory u1) = Some (f2, Some 0, False)" "rows f2 = rows (factory u1) @ [r0]"
       "elems r0 = []" "rcap r0 = n" "maxSize f2 = int B" "nbFields f2 = int n"
       "\<forall>x \<in> set (pool f2). rcap x = n" by auto
  have r1: "rows (factory u1) = []" using f(2) by (simp add: batch_inv_def)
  have "next_row E F cols u = ((u1\<lparr>factory := f2\<rparr>, Some 0), Continue)"
    using g0 f(1) g(1) by (simp add: next_row_def)
  with g f r1 False show ?thesis
    by (intro exI [of _ "u1\<lparr>factory := f2\<rparr>"] exI [of _ "[]"] exI [of _ r0])
       (simp add: sizes_def)
qed

lemma upload_lines_ok:
  assumes "batch_inv B (length cur) p u" "1 \<le> B" "\<forall>k. CopyFromErr F k = None"
    and "\<forall>k e. NewV1 F k \<noteq> Inl e"
    and "\<forall>line \<in> set ls. \<forall>name \<in> set cur.
            name \<noteq> ''id'' \<longrightarrow> pgConvert E (GuessType E name) (line name) \<noteq> None"
  shows "\<exists>u'. upload_lines E F cur cols ls u = (u', Continue)
           \<and> batch_inv B (length cur) (pending B p (length ls)) u'
           \<and> nbLines u' = nbLines u + length ls
           \<and> sizes u' = sizes u @ map (\<lambda>k. k - 1) (loop_flushes B p (length ls))"
  using assms
proof (induction ls arbitrary: p u)
  case Nil
  then show ?case by simp
next
  case (Cons line rest)
  let ?n = "length cur"
  let ?q = "if p < B then p else 0"
  from next_row_ok [OF Cons.prems(1-3), of E cols] obtain u1 rs r0 where
    n: "next_row E F cols u = ((u1, Some (length rs)), Continue)"
       "rows (factory u1) = rs @ [r0]" "elems r0 = []" "rcap r0 = ?n"
       "\<forall>r \<in> set rs. length (elems r) = ?n \<and> rcap r = ?n"
       "length rs = ?q"
       "maxSize (factory u1) = int B" "nbFields (factory u1) = int ?n"
       "\<forall>x \<in> set (pool (factory u1)). rcap x = ?n"
       "nbLines u1 = nbLines u"
       "sizes u1 = sizes u @ (if p < B then [] else [p - 1])" by blast
  let ?u1 = "u1\<lparr>nbLines := Suc (nbLines u1)\<rparr>"
  have conv: "\<forall>name \<in> set cur. name \<noteq> ''id'' \<longrightarrow> pgConvert E (GuessType E name) (line name) \<noteq> None"
    using Cons.prems(5) by simp
  have "\<exists>u' r'. fill_row E F line (Some (length rs)) cur ?u1 = (u', Continue)
           \<and> rows (factory u') = rs @ [r'] \<and> length (elems r') = length (elems r0) + length cur
           \<and> rcap r' = rcap r0 \<and> same_run ?u1 u'"
    by (rule fill_ok [OF _ _ Cons.prems(4) conv]) (simp_all add: n)
  then obtain u2 r' where
    f: "fill_row E F line (Some (length rs)) cur ?u1 = (u2, Continue)"
       "rows (factory u2) = rs @ [r']" "length (elems r') = ?n" "rcap r' = ?n"
       "same_run ?u1 u2" using n(3,4) by auto
  have pB: "p \<le> B" using Cons.prems(1) by (simp add: batch_inv_def)
  have inv2: "batch_inv B ?n (Suc ?q) u2"
    using f n pB Cons.prems(2) by (auto simp: batch_inv_def same_run_def)
  have conv': "\<forall>line \<in> set rest. \<forall>name \<in> set cur.
            name \<noteq> ''id'' \<longrightarrow> pgConvert E (GuessType E name) (line name) \<noteq> None"
    using Cons.prems(5) by simp
  from Cons.IH [OF inv2 Cons.prems(2-4) conv'] obtain u' where
    r: "upload_lines E F cur cols rest u2 = (u', Continue)"
       "batch_inv B ?n (pending B (Suc ?q) (length rest)) u'"
       "nbLines u' = nbLines u2 + length rest"
       "sizes u' = sizes u2 @ map (\<lambda>k. k - 1) (loop_flushes B (Suc ?q) (length rest))" by blast
  have e: "upload_lines E F cur cols (line # rest) u = (u', Continue)"
    using n(1) f(1) r(1) by simp
  have s2: "sizes u2 = sizes u1" "nbLines u2 = Suc (nbLines u)"
    using f(5) n(10) by (simp_all add: same_run_def sizes_def)
  show ?case
    using e r s2 n(11) by (intro exI [of _ u']) auto
qed

text \<open>
  When nothing fails, a file of \<open>L\<close> lines uploaded with a batch size \<open>B\<close> of at least
  1 makes one bulk-copy call for each \<open>B\<close> lines and one more for the lines that remain,
  and returns \<open>L\<close>; a call for a batch of \<open>k\<close> rows streams \<open>k - 1\<close> rows.
\<close>

lemma uploadPG_cadence:
  assumes "clean E F" "1 \<le> B"
  shows "map (\<lambda>c. length (streamed c)) (bulk (uploadPG E F (int B)))
           = map (\<lambda>k. k - 1)
               (replicate (length (Lines F) div B) B
                @ (if length (Lines F) mod B = 0 then [] else [length (Lines F) mod B]))
         \<and> ending (uploadPG E F (int B)) = Returned (length (Lines F)) (ExecVacuum F)"
proof -
  let ?cur = "curFieldNames F"
  let ?cols = "map (pgKey E) ?cur"
  let ?L = "length (Lines F)"
  let ?fac = "\<lparr>pool = [], maxSize = int B, nbFields = int (length ?cur), rows = []\<rparr>"
  let ?u0 = "\<lparr>factory = ?fac, nbLines = 0, copies = [], ids = 0\<rparr>"
  from assms(1) have c: "ParseHeader F = None" "Acquire F = None" "\<forall>k. CopyFromErr F k = None"
    "\<forall>k e. NewV1 F k \<noteq> Inl e"
    "\<forall>line \<in> set (Lines F). \<forall>name \<in> set ?cur.
        name \<noteq> ''id'' \<longrightarrow> pgConvert E (GuessType E name) (line name) \<noteq> None"
    by (simp_all add: clean_def)
  have rf: "RowFactory (int B) (int (length ?cur)) = Some ?fac" by (simp add: RowFactory_def)
  have inv0: "batch_inv B (length ?cur) 0 ?u0" by (simp add: batch_inv_def)
  from upload_lines_ok [OF inv0 assms(2) c(3) c(4) c(5), of ?cols] obtain u where
    l: "upload_lines E F ?cur ?cols (Lines F) ?u0 = (u, Continue)"
       "batch_inv B (length ?cur) (pending B 0 ?L) u"
       "nbLines u = ?L"
       "sizes u = map (\<lambda>k. k - 1) (loop_flushes B 0 ?L)" by (auto simp: sizes_def)
  have "\<exists>u'. uploadRows E F ?cols u = (u', FlushOk) \<and> nbLines u' = ?L
          \<and> sizes u' = map (\<lambda>k. k - 1)
               (loop_flushes B 0 ?L @ (if pending B 0 ?L = 0 then [] else [pending B 0 ?L]))"
  proof (cases "pending B 0 ?L = 0")
    case True
    with l(2) have "rows (factory u) = []" by (simp add: batch_inv_def)
    then have "uploadRows E F ?cols u = (u, FlushOk)" by (simp add: uploadRows_simp)
    with l True show ?thesis by simp
  next
    case False
    then have "1 \<le> pending B 0 ?L" by simp
    from flush_ok [OF l(2) this c(3), of E ?cols] l False show ?thesis by auto
  qed
  then obtain u' where
    f: "uploadRows E F ?cols u = (u', FlushOk)" "nbLines u' = ?L"
       "sizes u' = map (\<lambda>k. k - 1)
               (loop_flushes B 0 ?L @ (if pending B 0 ?L = 0 then [] else [pending B 0 ?L]))"
    by blast
  have "uploadPG E F (int B)
        = \<lparr>printed = [], bulk = copies u', vacuumed = True, released = True,
           ending = Returned (nbLines u') (ExecVacuum F)\<rparr>"
    using c(1,2) rf l(1) f(1) by (simp add: uploadPG_def Let_def)
  with f all_flushes_eq [OF assms(2), of ?L] show ?thesis by (simp add: sizes_def)
qed

lemma clean_file12000: "clean env0 file12000"
  by (simp add: clean_def file12000_def file3_def env0_def line_of_def curFieldNames_def
        pgConvert_def)

text \<open>
  C1. A file of 12000 lines uploaded with a batch size of 5000: \<open>CopyFrom\<close> is called
  three times and the line count returned is 12000, but the calls stream 4999, 4999 and
  1999 rows. A file of three lines with a batch size of 2: \<open>CopyFrom\<close> is called twice and
  the line count returned is 3; the first call streams one row, that of the second
  line, and the second call streams no row. The first row of every batch never reaches
  the sink.
\<close>

theorem uploadPG_first_row_of_batch_not_streamed:
  "map (\<lambda>c. length (streamed c)) (bulk (uploadPG env0 file12000 5000)) = [4999, 4999, 1999]
   \<and> ending (uploadPG env0 file12000 5000) = Returned 12000 None
   \<and> bulk (uploadPG env0 file3 2)
       = [\<lparr>table = ''accesslogs'', columns = [''id'', ''sc-status''],
            streamed = [[GoBytes ''uu'', GoInt64 404]], copy_err = None\<rparr>,
          \<lparr>table = ''accesslogs'', columns = [''id'', ''sc-status''],
            streamed = [], copy_err = None\<rparr>]
   \<and> ending (uploadPG env0 file3 2) = Returned 3 None"
proof -
  have r: "replicate 2 (5000::nat) = [5000, 5000]" by (simp add: numeral_2_eq_2)
  have l: "length (Lines file12000) = 12000" "ExecVacuum file12000 = None"
    by (simp_all add: file12000_def file3_def)
  from uploadPG_cadence [OF clean_file12000, of 5000] l r
  have big: "map (\<lambda>c. length (streamed c)) (bulk (uploadPG env0 file12000 5000)) = [4999, 4999, 1999]
     \<and> ending (uploadPG env0 file12000 5000) = Returned 12000 None" by simp
  have small: "uploadPG env0 file3 2
   = \<lparr>printed = [],
      bulk = [\<lparr>table = ''accesslogs'', columns = [''id'', ''sc-status''],
                streamed = [[GoBytes ''uu'', GoInt64 404]], copy_err = None\<rparr>,
              \<lparr>table = ''accesslogs'', columns = [''id'', ''sc-status''],
                streamed = [], copy_err = None\<rparr>],
      vacuumed = True, released = True, ending = Returned 3 None\<rparr>"
    by (simp add: run_simps env_simps)
  from big small show ?thesis by simp
qed

section \<open>Errors of an upload\<close>

lemma errs_ok_quiet: "errs_ok F u Continue \<Longrightarrow> errs_ok F u c"
  by (simp add: errs_ok_def)

lemma errs_ok_cong: "errs_ok F u c \<Longrightarrow> copies u' = copies u \<Longrightarrow> ids u' = ids u \<Longrightarrow> errs_ok F u' c"
  by (simp add: errs_ok_def)

lemma add_or_return_ids: "add_or_return u row v = (u', c) \<Longrightarrow> ids u' = ids u"
  by (auto simp: add_or_return_def ptr_AddField_def split: option.splits prod.splits if_splits)

lemma fill_row_errs:
  "errs_ok F u Continue \<Longrightarrow> fill_row E F line row names u = (u', c) \<Longrightarrow> errs_ok F u' c"
proof (induction names arbitrary: u)
  case Nil
  then show ?case by simp
next
  case (Cons name names)
  have tail: "errs_ok F u' c"
    if a: "add_or_return u0 row v = (u1, c1)" and q: "errs_ok F u0 Continue"
      and r: "c1 = Continue \<longrightarrow> fill_row E F line row names u1 = (u', c)"
      and s: "c1 \<noteq> Continue \<longrightarrow> u' = u1 \<and> c = c1" for u0 v u1 c1
  proof -
    have q1: "errs_ok F u1 Continue"
      using q add_or_return_keeps [OF a] add_or_return_ids [OF a] by (simp add: errs_ok_def)
    show ?thesis
    proof (cases "c1 = Continue")
      case True
      with r Cons.IH [OF q1] show ?thesis by simp
    next
      case False
      with s errs_ok_quiet [OF q1] show ?thesis by simp
    qed
  qed
  show ?case
  proof (cases "name = ''id''")
    case True
    show ?thesis
    proof (cases "NewV1 F (ids u)")
      case (Inl e)
      with True Cons.prems(2) have "u' = u\<lparr>ids := Suc (ids u)\<rparr>" "c = Returned 0 (Some e)" by auto
      with Cons.prems(1) Inl show ?thesis by (auto simp: errs_ok_def less_Suc_eq)
    next
      case (Inr b)
      let ?u0 = "u\<lparr>ids := Suc (ids u)\<rparr>"
      obtain u1 c1 where a: "add_or_return ?u0 row (GoBytes b) = (u1, c1)"
        by (cases "add_or_return ?u0 row (GoBytes b)")
      have q: "errs_ok F ?u0 Continue"
        using Cons.prems(1) Inr by (auto simp: errs_ok_def less_Suc_eq)
      show ?thesis
      proof (rule tail [OF a q])
        show "c1 = Continue \<longrightarrow> fill_row E F line row names u1 = (u', c)"
          using True Inr a Cons.prems(2) by auto
        show "c1 \<noteq> Continue \<longrightarrow> u' = u1 \<and> c = c1"
          using True Inr a Cons.prems(2) by (cases c1) simp_all
      qed
    qed
  next
    case False
    show ?thesis
    proof (cases "pgConvert E (GuessType E name) (line name)")
      case None
      with False Cons.prems(2) have "u' = u" by simp
      with errs_ok_quiet [OF Cons.prems(1)] show ?thesis by simp
    next
      case (Some v)
      obtain u1 c1 where a: "add_or_return u row v = (u1, c1)"
        by (cases "add_or_return u row v")
      show ?thesis
      proof (rule tail [OF a Cons.prems(1)])
        show "c1 = Continue \<longrightarrow> fill_row E F line row names u1 = (u', c)"
          using False Some a Cons.prems(2) by auto
        show "c1 \<noteq> Continue \<longrightarrow> u' = u1 \<and> c = c1"
          using False Some a Cons.prems(2) by (cases c1) simp_all
      qed
    qed
  qed
qed

lemma uploadRows_errs:
  assumes "errs_ok F u Continue" "uploadRows E F cols u = (u', fl)"
  shows "ids u' = ids u \<and> (fl = FlushOk \<longrightarrow> errs_ok F u' Continue)
         \<and> (\<forall>e. fl = FlushErr e \<longrightarrow> errs_ok F u' (Returned 0 (Some e)))"
proof (cases "rows (factory u) = []")
  case True
  with assms show ?thesis by (auto simp: uploadRows_simp)
next
  case False
  show ?thesis
  proof (cases "first_bad (nbFields (factory u)) 0 (rows (factory u))")
    case (Some err)
    with False assms(2) have "u' = u" by (simp add: uploadRows_simp)
    with assms(1) Some False assms(2) show ?thesis by (auto simp: uploadRows_simp errs_ok_def)
  next
    case None
    show ?thesis
    proof (cases "CopyFromErr F (length (copies u))")
      case ok: None
      with False None assms show ?thesis by (auto simp: uploadRows_simp errs_ok_def Let_def)
    next
      case (Some e)
      with False None assms show ?thesis by (auto simp: uploadRows_simp errs_ok_def Let_def)
    qed
  qed
qed

lemma GetRow_factory: "GetRow (factory u) = Some (f, row, full) \<Longrightarrow> errs_ok F u c \<Longrightarrow> errs_ok F (u\<lparr>factory := f\<rparr>) c"
  by (simp add: errs_ok_def)

lemma next_row_errs:
  assumes "errs_ok F u Continue" "next_row E F cols u = ((u', row), c)"
  shows "errs_ok F u' c"
proof (cases "GetRow (factory u)")
  case None
  with assms(2) have "u' = u" by (simp add: next_row_def)
  with errs_ok_quiet [OF assms(1)] show ?thesis by simp
next
  case (Some g)
  obtain f1 r1 full where g: "g = (f1, r1, full)" by (cases g)
  have q1: "errs_ok F (u\<lparr>factory := f1\<rparr>) Continue" using assms(1) by (simp add: errs_ok_def)
  show ?thesis
  proof (cases full)
    case False
    with assms(2) Some g have "u' = u\<lparr>factory := f1\<rparr>" by (simp add: next_row_def)
    with errs_ok_quiet [OF q1] show ?thesis by simp
  next
    case True
    obtain u1 fl where up: "uploadRows E F cols (u\<lparr>factory := f1\<rparr>) = (u1, fl)"
      by (cases "uploadRows E F cols (u\<lparr>factory := f1\<rparr>)")
    note ur = uploadRows_errs [OF q1 up]
    show ?thesis
    proof (cases fl)
      case FlushPanic
      with up uploadRows_not_panic show ?thesis by blast
    next
      case (FlushErr e)
      with assms(2) Some g True up have "u' = u1" "c = Returned 0 (Some e)"
        by (simp_all add: next_row_def)
      with ur FlushErr show ?thesis by simp
    next
      case FlushOk
      with ur have q2: "errs_ok F u1 Continue" by simp
      show ?thesis
      proof (cases "GetRow (factory u1)")
        case None
        with assms(2) Some g True up FlushOk have "u' = u1" by (simp add: next_row_def)
        with errs_ok_quiet [OF q2] show ?thesis by simp
      next
        case g2: (Some h)
        obtain f2 r2 full2 where h: "h = (f2, r2, full2)" by (cases h)
        with assms(2) Some g True up FlushOk g2 have "u' = u1\<lparr>factory := f2\<rparr>"
          by (simp add: next_row_def)
        with errs_ok_quiet [OF q2, of c] show ?thesis by (simp add: errs_ok_def)
      qed
    qed
  qed
qed

lemma upload_lines_errs:
  "errs_ok F u Continue \<Longrightarrow> upload_lines E F cur cols ls u = (u', c) \<Longrightarrow> errs_ok F u' c"
proof (induction ls arbitrary: u)
  case Nil
  then show ?case by simp
next
  case (Cons line rest)
  obtain u1 row c1 where n: "next_row E F cols u = ((u1, row), c1)"
    by (cases "next_row E F cols u") auto
  note e1 = next_row_errs [OF Cons.prems(1) n]
  show ?case
  proof (cases "c1 = Continue")
    case False
    with n Cons.prems(2) have "u' = u1" "c = c1" by (cases c1; simp)+
    with e1 show ?thesis by simp
  next
    case True
    let ?u1 = "u1\<lparr>nbLines := Suc (nbLines u1)\<rparr>"
    have q1: "errs_ok F ?u1 Continue" using e1 True by (simp add: errs_ok_def)
    obtain u2 c2 where f: "fill_row E F line row cur ?u1 = (u2, c2)"
      by (cases "fill_row E F line row cur ?u1")
    note e2 = fill_row_errs [OF q1 f]
    show ?thesis
    proof (cases "c2 = Continue")
      case False
      with True n f Cons.prems(2) have "u' = u2" "c = c2" by (cases c2; simp)+
      with e2 show ?thesis by simp
    next
      case c2: True
      with True n f Cons.prems(2) have "upload_lines E F cur cols rest u2 = (u', c)" by simp
      from Cons.IH [OF _ this] e2 c2 show ?thesis by simp
    qed
  qed
qed

lemma uploadPG_errs:
  "(\<forall>c \<in> set (bulk (uploadPG E F bsize)). \<forall>e. copy_err c = Some e
        \<longrightarrow> ending (uploadPG E F bsize) = Returned 0 (Some e))
   \<and> (ParseHeader F = None \<and> Acquire F = None
        \<and> RowFactory bsize (int (length (curFieldNames F))) = Some fac
        \<and> k < ids (fst (upload_lines E F (curFieldNames F) (map (pgKey E) (curFieldNames F))
                           (Lines F) \<lparr>factory = fac, nbLines = 0, copies = [], ids = 0\<rparr>))
        \<and> NewV1 F k = Inl e
        \<longrightarrow> ending (uploadPG E F bsize) = Returned 0 (Some e))"
proof -
  have q0: "errs_ok F \<lparr>factory = f, nbLines = 0, copies = [], ids = 0\<rparr> Continue" for f
    by (simp add: errs_ok_def)
  show ?thesis
  proof (cases E F bsize rule: uploadPG_cases)
    case (header e')
    then show ?thesis by simp
  next
    case (acquire e')
    then show ?thesis by simp
  next
    case factory
    then have "RowFactory bsize (int (length (curFieldNames F))) = None"
      by (simp add: RowFactory_def)
    with factory show ?thesis by simp
  next
    case (loop fac' u c)
    from upload_lines_errs [OF q0 loop(4)] have "errs_ok F u c" .
    with loop show ?thesis by (auto simp: errs_ok_def)
  next
    case (flush fac' u u' e')
    from upload_lines_errs [OF q0 flush(4)] have q: "errs_ok F u Continue" .
    from uploadRows_errs [OF q flush(5)]
    have "ids u' = ids u" "errs_ok F u' (Returned 0 (Some e'))" by simp_all
    with flush show ?thesis by (auto simp: errs_ok_def)
  next
    case (vacuum fac' u u')
    from upload_lines_errs [OF q0 vacuum(4)] have q: "errs_ok F u Continue" .
    from uploadRows_errs [OF q vacuum(5)]
    have "ids u' = ids u" "errs_ok F u' Continue" by simp_all
    with vacuum show ?thesis by (auto simp: errs_ok_def)
  qed
qed

lemma fill_over:
  assumes "rows (factory u) = rs @ [r]" "length (elems r) \<le> rcap r"
    and "rcap r < length (elems r) + length names"
    and "\<forall>k e. NewV1 F k \<noteq> Inl e"
    and "\<forall>name \<in> set names. name \<noteq> ''id'' \<longrightarrow> pgConvert E (GuessType E name) (line name) \<noteq> None"
  shows "snd (fill_row E F line (Some (length rs)) names u) = Returned 0 (Some (TooManyFields (rcap r)))"
  using assms
proof (induction names arbitrary: u r)
  case Nil
  then show ?case by simp
next
  case (Cons name names)
  have full: "snd (add_or_return u0 (Some (length rs)) v) = Returned 0 (Some (TooManyFields (rcap r)))"
    if "rows (factory u0) = rs @ [r]" "length (elems r) = rcap r" for u0 v
    using that by (simp add: add_or_return_def ptr_AddField_def AddField_def)
  have go: "snd (fill_row E F line (Some (length rs)) names u1) = Returned 0 (Some (TooManyFields (rcap r)))"
    if a: "rows (factory u1) = rs @ [r\<lparr>elems := elems r @ [v]\<rparr>]" and lt: "length (elems r) < rcap r"
    for u1 v
  proof -
    have "snd (fill_row E F line (Some (length rs)) names u1)
          = Returned 0 (Some (TooManyFields (rcap (r\<lparr>elems := elems r @ [v]\<rparr>))))"
      by (rule Cons.IH [OF a]) (use lt Cons.prems in simp_all)
    then show ?thesis by simp
  qed
  show ?case
  proof (cases "name = ''id''")
    case True
    from Cons.prems(4) obtain b where b: "NewV1 F (ids u) = Inr b"
      by (cases "NewV1 F (ids u)") auto
    let ?u0 = "u\<lparr>ids := Suc (ids u)\<rparr>"
    show ?thesis
    proof (cases "length (elems r) < rcap r")
      case lt: True
      let ?u1 = "?u0\<lparr>factory := (factory ?u0)\<lparr>rows := rs @ [r\<lparr>elems := elems r @ [GoBytes b]\<rparr>]\<rparr>\<rparr>"
      have a: "add_or_return ?u0 (Some (length rs)) (GoBytes b) = (?u1, Continue)"
        using add_ok [of ?u0 rs r "GoBytes b"] Cons.prems(1) lt by simp
      have "fill_row E F line (Some (length rs)) (name # names) u
             = fill_row E F line (Some (length rs)) names ?u1"
        using True b a by simp
      with go [of ?u1 "GoBytes b"] lt show ?thesis by simp
    next
      case False
      with Cons.prems(2) have eq: "length (elems r) = rcap r" by simp
      obtain u1 c1 where a: "add_or_return ?u0 (Some (length rs)) (GoBytes b) = (u1, c1)"
        by (cases "add_or_return ?u0 (Some (length rs)) (GoBytes b)")
      with full [of ?u0 "GoBytes b"] Cons.prems(1) eq
      have "c1 = Returned 0 (Some (TooManyFields (rcap r)))" by simp
      with True b a show ?thesis by simp
    qed
  next
    case False
    with Cons.prems(5) obtain v where v: "pgConvert E (GuessType E name) (line name) = Some v"
      by auto
    show ?thesis
    proof (cases "length (elems r) < rcap r")
      case lt: True
      let ?u1 = "u\<lparr>factory := (factory u)\<lparr>rows := rs @ [r\<lparr>elems := elems r @ [v]\<rparr>]\<rparr>\<rparr>"
      have a: "add_or_return u (Some (length rs)) v = (?u1, Continue)"
        using add_ok [of u rs r v] Cons.prems(1) lt by simp
      have "fill_row E F line (Some (length rs)) (name # names) u
             = fill_row E F line (Some (length rs)) names ?u1"
        using False v a by simp
      with go [of ?u1 v] lt show ?thesis by simp
    next
      case nlt: False
      with Cons.prems(2) have eq: "length (elems r) = rcap r" by simp
      obtain u1 c1 where a: "add_or_return u (Some (length rs)) v = (u1, c1)"
        by (cases "add_or_return u (Some (length rs)) v")
      with full [of u v] Cons.prems(1) eq
      have "c1 = Returned 0 (Some (TooManyFields (rcap r)))" by simp
      with False v a show ?thesis by simp
    qed
  qed
qed

lemma upload_lines_append_error:
  assumes "batch_inv B m p u" "1 \<le> B" "m < length cur" "\<forall>k. CopyFromErr F k = None"
    and "\<forall>k e. NewV1 F k \<noteq> Inl e"
    and "\<forall>name \<in> set cur. name \<noteq> ''id'' \<longrightarrow> pgConvert E (GuessType E name) (line name) \<noteq> None"
  shows "snd (upload_lines E F cur cols (line # rest) u) = Returned 0 (Some (TooManyFields m))"
proof -
  from next_row_ok [OF assms(1,2,4), of E cols] obtain u1 rs r0 where
    n: "next_row E F cols u = ((u1, Some (length rs)), Continue)"
       "rows (factory u1) = rs @ [r0]" "elems r0 = []" "rcap r0 = m" by blast
  let ?u1 = "u1\<lparr>nbLines := Suc (nbLines u1)\<rparr>"
  have "snd (fill_row E F line (Some (length rs)) cur ?u1) = Returned 0 (Some (TooManyFields (rcap r0)))"
    by (rule fill_over [OF _ _ _ assms(5,6)]) (use n assms(3) in simp_all)
  then obtain u2 where "fill_row E F line (Some (length rs)) cur ?u1 = (u2, Returned 0 (Some (TooManyFields m)))"
    using n(4) by (cases "fill_row E F line (Some (length rs)) cur ?u1") simp
  with n(1) show ?thesis by simp
qed

text \<open>
  C10. \<open>uploadPG\<close> returns the line count 0 together with the error
  \<^item> of \<open>ParseHeader\<close>, and of \<open>Acquire\<close>;
  \<^item> of any bulk-copy call that failed, inside the loop or after it, whatever was flushed
    before;
  \<^item> of any call of \<open>uuid.NewV1\<close> that the loop made and that failed.
  An error of \<open>AddField\<close> cannot be provoked through \<open>uploadPG\<close>, which sizes the rows
  for the columns it fills; the loop run on a batch whose rows are too narrow for the
  columns returns the line count 0 and the error of \<open>AddField\<close>.
  Whenever \<open>uploadPG\<close> returns without having run \<open>VACUUM\<close>, it returns the line count 0
  and an error. When it has run \<open>VACUUM\<close>, it returns the number of lines of the file and
  the result of \<open>VACUUM\<close>.
\<close>

theorem uploadPG_line_count:
  "(ParseHeader F = Some e \<longrightarrow> ending (uploadPG E F bsize) = Returned 0 (Some e))
   \<and> (ParseHeader F = None \<and> Acquire F = Some e
        \<longrightarrow> ending (uploadPG E F bsize) = Returned 0 (Some e))
   \<and> (\<not> vacuumed (uploadPG E F bsize) \<and> ending (uploadPG E F bsize) = Returned n err
        \<longrightarrow> n = 0 \<and> err \<noteq> None)
   \<and> (vacuumed (uploadPG E F bsize)
        \<longrightarrow> ending (uploadPG E F bsize) = Returned (length (Lines F)) (ExecVacuum F))
   \<and> (\<forall>c \<in> set (bulk (uploadPG E F bsize)). \<forall>e'. copy_err c = Some e'
        \<longrightarrow> ending (uploadPG E F bsize) = Returned 0 (Some e'))
   \<and> (ParseHeader F = None \<and> Acquire F = None
        \<and> RowFactory bsize (int (length (curFieldNames F))) = Some fac
        \<and> k < ids (fst (upload_lines E F (curFieldNames F) (map (pgKey E) (curFieldNames F))
                           (Lines F) \<lparr>factory = fac, nbLines = 0, copies = [], ids = 0\<rparr>))
        \<and> NewV1 F k = Inl e
        \<longrightarrow> ending (uploadPG E F bsize) = Returned 0 (Some e))
   \<and> (batch_inv B m p u \<and> 1 \<le> B \<and> m < length cur \<and> (\<forall>k. CopyFromErr F k = None)
        \<and> (\<forall>k e'. NewV1 F k \<noteq> Inl e')
        \<and> (\<forall>name \<in> set cur. name \<noteq> ''id''
               \<longrightarrow> pgConvert E (GuessType E name) (line name) \<noteq> None)
        \<longrightarrow> snd (upload_lines E F cur cols (line # rest) u)
              = Returned 0 (Some (TooManyFields m)))"
proof -
  have first: "(ParseHeader F = Some e \<longrightarrow> ending (uploadPG E F bsize) = Returned 0 (Some e))
   \<and> (ParseHeader F = None \<and> Acquire F = Some e
        \<longrightarrow> ending (uploadPG E F bsize) = Returned 0 (Some e))
   \<and> (\<not> vacuumed (uploadPG E F bsize) \<and> ending (uploadPG E F bsize) = Returned n err
        \<longrightarrow> n = 0 \<and> err \<noteq> None)
   \<and> (vacuumed (uploadPG E F bsize)
        \<longrightarrow> ending (uploadPG E F bsize) = Returned (length (Lines F)) (ExecVacuum F))"
  proof (cases E F bsize rule: uploadPG_cases)
    case (header e')
    then show ?thesis by auto
  next
    case (acquire e')
    then show ?thesis by auto
  next
    case factory
    then show ?thesis by simp
  next
    case (loop fac' u' c)
    from upload_lines_cases [OF loop(4)] loop(5)
    have "c = Panicked \<or> (\<exists>e. c = Returned 0 (Some e))" by blast
    with loop show ?thesis by auto
  next
    case (flush fac' u' u'' e')
    then show ?thesis by auto
  next
    case (vacuum fac' u' u'')
    from upload_lines_cases [OF vacuum(4)] have "nbLines u' = length (Lines F)" by simp
    with uploadRows_keeps [OF vacuum(5)] vacuum show ?thesis by simp
  qed
  have append: "batch_inv B m p u \<and> 1 \<le> B \<and> m < length cur \<and> (\<forall>k. CopyFromErr F k = None)
        \<and> (\<forall>k e'. NewV1 F k \<noteq> Inl e')
        \<and> (\<forall>name \<in> set cur. name \<noteq> ''id''
               \<longrightarrow> pgConvert E (GuessType E name) (line name) \<noteq> None)
        \<longrightarrow> snd (upload_lines E F cur cols (line # rest) u)
              = Returned 0 (Some (TooManyFields m))"
    using upload_lines_append_error [of B m p u cur F E line cols rest] by blast
  from first uploadPG_errs [of E F bsize fac k e] append show ?thesis by blast
qed

theorem uploadPG_line_count_witness:
  "ParseHeader file3_failing = None \<and> Acquire file3_failing = None
   \<and> \<not> vacuumed (uploadPG env0 file3_failing 2)
   \<and> ending (uploadPG env0 file3_failing 2) = Returned 0 (Some (Err ''copy failed''))
   \<and> map copy_err (bulk (uploadPG env0 file3_failing 2)) = [None, Some (Err ''copy failed'')]
   \<and> vacuumed (uploadPG env0 (file3\<lparr>ExecVacuum := Some (Err ''vacuum failed'')\<rparr>) 2)
   \<and> ending (uploadPG env0 (file3\<lparr>ExecVacuum := Some (Err ''vacuum failed'')\<rparr>) 2)
       = Returned 3 (Some (Err ''vacuum failed''))
   \<and> ending (uploadPG env0 (file3\<lparr>ParseHeader := Some (Err ''bad header'')\<rparr>) 2)
       = Returned 0 (Some (Err ''bad header''))
   \<and> ending (uploadPG env0 (file3\<lparr>Acquire := Some (Err ''no connection'')\<rparr>) 2)
       = Returned 0 (Some (Err ''no connection''))
   \<and> RowFactory 2 (int (length (curFieldNames file_id_fail)))
       = Some \<lparr>pool = [], maxSize = 2, nbFields = 2, rows = []\<rparr>
   \<and> ids (fst (upload_lines env0 file_id_fail (curFieldNames file_id_fail)
                  (map (pgKey env0) (curFieldNames file_id_fail)) (Lines file_id_fail)
                  \<lparr>factory = \<lparr>pool = [], maxSize = 2, nbFields = 2, rows = []\<rparr>,
                   nbLines = 0, copies = [], ids = 0\<rparr>)) = 2
   \<and> NewV1 file_id_fail 1 = Inl (Err ''no clock'')
   \<and> ending (uploadPG env0 file_id_fail 2) = Returned 0 (Some (Err ''no clock''))
   \<and> batch_inv 2 1 0 \<lparr>factory = \<lparr>pool = [], maxSize = 2, nbFields = 1, rows = []\<rparr>,
                         nbLines = 0, copies = [], ids = 0\<rparr>
   \<and> snd (upload_lines env0 file3 [''id'', ''sc-status''] [''id'', ''sc-status''] [line_of 200]
             \<lparr>factory = \<lparr>pool = [], maxSize = 2, nbFields = 1, rows = []\<rparr>,
              nbLines = 0, copies = [], ids = 0\<rparr>)
       = Returned 0 (Some (TooManyFields 1))"
proof -
  let ?vac = "file3\<lparr>ExecVacuum := Some (Err ''vacuum failed'')\<rparr>"
  let ?hdr = "file3\<lparr>ParseHeader := Some (Err ''bad header'')\<rparr>"
  let ?acq = "file3\<lparr>Acquire := Some (Err ''no connection'')\<rparr>"
  let ?fac = "\<lparr>pool = [], maxSize = 2, nbFields = 2, rows = []\<rparr>"
  let ?narrow = "\<lparr>factory = \<lparr>pool = [], maxSize = 2, nbFields = 1, rows = []\<rparr>,
                  nbLines = 0, copies = [], ids = 0\<rparr>"
  let ?call = "\<lparr>table = ''accesslogs'', columns = [''id'', ''sc-status''],
                 streamed = [], copy_err = Some (Err ''copy failed'')\<rparr>"
  have h1: "ParseHeader file3_failing = None" "Acquire file3_failing = None"
    by (simp_all add: env_simps)
  have h2: "\<not> vacuumed (uploadPG env0 file3_failing 2)"
    "map copy_err (bulk (uploadPG env0 file3_failing 2)) = [None, Some (Err ''copy failed'')]"
    "?call \<in> set (bulk (uploadPG env0 file3_failing 2))"
    by (simp_all add: run_simps env_simps)
  note t1 = uploadPG_line_count [where F = file3_failing and E = env0 and bsize = 2]
  have r1: "ending (uploadPG env0 file3_failing 2) = Returned 0 (Some (Err ''copy failed''))"
    by (rule t1 [THEN conjunct2, THEN conjunct2, THEN conjunct2, THEN conjunct2, THEN conjunct1,
          THEN bspec, OF h2(3), THEN spec, THEN mp]) simp
  note t3 = uploadPG_line_count [where F = ?vac and E = env0 and bsize = 2]
  have h3: "vacuumed (uploadPG env0 ?vac 2)" by (simp add: run_simps env_simps)
  have "ending (uploadPG env0 ?vac 2) = Returned (length (Lines ?vac)) (ExecVacuum ?vac)"
    by (rule t3 [THEN conjunct2, THEN conjunct2, THEN conjunct2, THEN conjunct1, THEN mp, OF h3])
  then have r3: "ending (uploadPG env0 ?vac 2) = Returned 3 (Some (Err ''vacuum failed''))"
    by (simp add: env_simps)
  note t4 = uploadPG_line_count [where F = ?hdr and E = env0 and bsize = 2
        and e = "Err ''bad header''"]
  have r4: "ending (uploadPG env0 ?hdr 2) = Returned 0 (Some (Err ''bad header''))"
    by (rule t4 [THEN conjunct1, THEN mp]) simp
  note t5 = uploadPG_line_count [where F = ?acq and E = env0 and bsize = 2
        and e = "Err ''no connection''"]
  have r5: "ending (uploadPG env0 ?acq 2) = Returned 0 (Some (Err ''no connection''))"
    by (rule t5 [THEN conjunct2, THEN conjunct1, THEN mp]) (simp add: env_simps)
  have h6: "RowFactory 2 (int (length (curFieldNames file_id_fail))) = Some ?fac"
    "NewV1 file_id_fail 1 = Inl (Err ''no clock'')"
    by (simp_all add: env_simps file_id_fail_def curFieldNames_def RowFactory_def)
  have h6': "ids (fst (upload_lines env0 file_id_fail (curFieldNames file_id_fail)
                  (map (pgKey env0) (curFieldNames file_id_fail)) (Lines file_id_fail)
                  \<lparr>factory = ?fac, nbLines = 0, copies = [], ids = 0\<rparr>)) = 2"
    by (simp add: run_simps env_simps file_id_fail_def)
  note t6 = uploadPG_line_count [where F = file_id_fail and E = env0 and bsize = 2 and k = 1
        and fac = ?fac and e = "Err ''no clock''"]
  have r6: "ending (uploadPG env0 file_id_fail 2) = Returned 0 (Some (Err ''no clock''))"
  proof (rule t6 [THEN conjunct2, THEN conjunct2, THEN conjunct2, THEN conjunct2, THEN conjunct2,
          THEN conjunct1, THEN mp], intro conjI)
    show "ParseHeader file_id_fail = None" "Acquire file_id_fail = None"
      by (simp_all add: env_simps file_id_fail_def)
    show "RowFactory 2 (int (length (curFieldNames file_id_fail))) = Some ?fac" by (rule h6(1))
    show "1 < ids (fst (upload_lines env0 file_id_fail (curFieldNames file_id_fail)
                  (map (pgKey env0) (curFieldNames file_id_fail)) (Lines file_id_fail)
                  \<lparr>factory = ?fac, nbLines = 0, copies = [], ids = 0\<rparr>))"
      unfolding h6' by simp
    show "NewV1 file_id_fail 1 = Inl (Err ''no clock'')" by (rule h6(2))
  qed
  have h7: "batch_inv 2 1 0 ?narrow" by (simp add: batch_inv_def)
  note t7 = uploadPG_line_count [where F = file3 and E = env0 and B = 2 and m = 1 and p = 0
        and u = ?narrow and cur = "[''id'', ''sc-status'']" and cols = "[''id'', ''sc-status'']"
        and line = "line_of 200" and rest = "[]"]
  have r7: "snd (upload_lines env0 file3 [''id'', ''sc-status''] [''id'', ''sc-status'']
                   [line_of 200] ?narrow) = Returned 0 (Some (TooManyFields 1))"
  proof (rule t7 [THEN conjunct2, THEN conjunct2, THEN conjunct2, THEN conjunct2, THEN conjunct2,
          THEN conjunct2, THEN mp], intro conjI)
    show "batch_inv 2 1 0 ?narrow" by (rule h7)
    show "\<forall>k. CopyFromErr file3 k = None" "\<forall>k e'. NewV1 file3 k \<noteq> Inl e'"
      by (simp_all add: env_simps)
    show "\<forall>name \<in> set [''id'', ''sc-status'']. name \<noteq> ''id''
        \<longrightarrow> pgConvert env0 (GuessType env0 name) (line_of 200 name) \<noteq> None"
      by (simp add: env_simps pgConvert_def)
  qed simp_all
  show ?thesis
    by (intro conjI h1 h2(1,2) r1 h3 r3 r4 r5 h6 h6' r6 h7 r7)
qed

end
